theory Spec2Isabelle
  imports Complex_Main "HOL-Library.Multiset"
begin

section \<open>Data model\<close>

text \<open>
  The records follow the TypeScript interfaces of the point-of-sale client.
  A JavaScript \<open>number\<close> that holds a count or an identifier is an \<open>int\<close>; a
  \<open>number\<close> that holds money is a \<open>real\<close>, the exact value of the double.  An
  ISO date string
  is represented by the millisecond time value that \<open>new Date(s).getTime()\<close>
  yields for it; the rows that \<open>getProducts\<close> and \<open>getSales\<close> read from the
  backend all carry their \<open>created_at\<close>.
\<close>

text \<open>\<open>interface Product\<close> of \<open>lib/supabase\<close>; \<open>id\<close> is optional there.\<close>

record product =
  id_p :: "int option"
  name :: string
  image_url :: string
  selling_price :: real
  cost_price :: real
  stock :: int
  low_stock_threshold :: int
  created_at :: int

text \<open>\<open>interface CartItem\<close> of \<open>pages/Pos.tsx\<close>.\<close>

record cart_item =
  product_id :: int
  quantity :: int
  price_at_sale :: real
  cost_at_sale :: real

text \<open>
  The notice shown by the modal: \<open>modalContent\<close> and \<open>modalOpen\<close> of the POS page.
  The message is kept as the translation key handed to \<open>t\<close>.
\<close>

datatype modal_type = Success | Error | Info

record modal_content =
  title :: string
  message :: string
  mtype :: modal_type

text \<open>The React state of the POS page that the cart handlers read and write.\<close>

record pos_state =
  user :: "string option"
  products :: "product list"
  cart :: "cart_item list"
  modalOpen :: bool
  modalContent :: modal_content

section \<open>Cart model\<close>

text \<open>
  Each handler runs against the state of the render that installed it, so the
  \<open>prevCart\<close> passed to the functional update of \<open>setCart\<close> is the \<open>cart\<close> the
  handler closed over.
\<close>

definition notify :: "string \<Rightarrow> modal_type \<Rightarrow> pos_state \<Rightarrow> pos_state" where
  "notify key ty st =
     st\<lparr>modalContent := \<lparr>title = ''notification'', message = key, mtype = ty\<rparr>,
        modalOpen := True\<rparr>"

definition handleAddToCart :: "pos_state \<Rightarrow> int \<Rightarrow> pos_state" where
  "handleAddToCart st productId =
     (case find (\<lambda>p. id_p p = Some productId) (products st) of
        None \<Rightarrow> st
      | Some product \<Rightarrow>
          let existingItem = find (\<lambda>item. product_id item = productId) (cart st);
              currentQuantity = (case existingItem of Some item \<Rightarrow> quantity item | None \<Rightarrow> 0)
          in if currentQuantity + 1 > stock product
             then notify ''max_stock_reached'' Error st
             else st\<lparr>cart :=
               (case existingItem of
                  Some _ \<Rightarrow>
                    map (\<lambda>item. if product_id item = productId
                                 then item\<lparr>quantity := quantity item + 1\<rparr>
                                 else item) (cart st)
                | None \<Rightarrow>
                    cart st @
                    [\<lparr>product_id = productId, quantity = 1,
                      price_at_sale = selling_price product,
                      cost_at_sale = cost_price product\<rparr>])\<rparr>)"

definition handleUpdateQuantity :: "pos_state \<Rightarrow> int \<Rightarrow> int \<Rightarrow> pos_state" where
  "handleUpdateQuantity st productId qty =
     (if qty \<le> 0
      then st\<lparr>cart := filter (\<lambda>item. product_id item \<noteq> productId) (cart st)\<rparr>
      else
        let product = find (\<lambda>p. id_p p = Some productId) (products st)
        in if (case product of Some p \<Rightarrow> qty > stock p | None \<Rightarrow> False)
           then notify ''insufficient_stock'' Error st
           else st\<lparr>cart :=
             map (\<lambda>item. if product_id item = productId
                          then item\<lparr>quantity := qty\<rparr>
                          else item) (cart st)\<rparr>)"

text \<open>
  The invariant of the data model for a cart: at most one line per product, and
  every line has a quantity of at least 1.
\<close>

definition cart_ok :: "cart_item list \<Rightarrow> bool" where
  "cart_ok c = (distinct (map product_id c) \<and> list_all (\<lambda>item. 1 \<le> quantity item) c)"

text \<open>
  A session at the till between two checkouts: the handler calls in the order in
  which the user triggers them.  The catalog cache is not written by them.
\<close>

datatype cart_event = AddToCart int | UpdateQuantity int int

fun apply_event :: "cart_event \<Rightarrow> pos_state \<Rightarrow> pos_state" where
  "apply_event (AddToCart productId) st = handleAddToCart st productId"
| "apply_event (UpdateQuantity productId qty) st = handleUpdateQuantity st productId qty"

definition session :: "cart_event list \<Rightarrow> pos_state \<Rightarrow> pos_state" where
  "session events st = fold apply_event events st"

section \<open>JavaScript numbers\<close>

text \<open>
  A \<open>number\<close> is an IEEE 754 double: a finite value, an infinity or \<open>NaN\<close> (the
  sign of zero is not kept).  \<open>double_round\<close> takes the exact result of an
  operation to the nearest double, ties to even: 53 significant bits, exponents
  down to the subnormal step \<open>2 powi - 1074\<close>, and infinity from \<open>2 ^ 1024\<close> on.
  \<open>exponent_of x\<close> is the power of two at or below a positive \<open>x\<close>.
\<close>

datatype js_number = Finite real | PosInfinity | NegInfinity | NaN

function exponent_of :: "real \<Rightarrow> int" where
  "exponent_of x =
     (if x \<le> 0 then 0
      else if 2 \<le> x then exponent_of (x / 2) + 1
      else if x < 1 then exponent_of (2 * x) - 1
      else 0)"
  by pat_completeness auto
termination
proof (relation "measure (\<lambda>x. nat \<lceil>x\<rceil> + 2 * nat \<lceil>1 / x\<rceil>)")
  show "wf (measure (\<lambda>x. nat \<lceil>x\<rceil> + 2 * nat \<lceil>1 / x\<rceil>))" by simp
next
  fix x :: real
  assume "\<not> x \<le> 0" and big: "2 \<le> x"
  then have "x / 2 \<le> x - 1" by simp
  then have "\<lceil>x / 2\<rceil> \<le> \<lceil>x - 1\<rceil>" by (rule ceiling_mono)
  then have a: "\<lceil>x / 2\<rceil> < \<lceil>x\<rceil>" by simp
  have "0 < 1 / x" "1 / x \<le> 1" "0 < 1 / (x / 2)" "1 / (x / 2) \<le> 1" using big by simp_all
  then have b: "\<lceil>1 / x\<rceil> = 1" "\<lceil>1 / (x / 2)\<rceil> = 1"
    by (simp_all add: ceiling_eq_iff)
  have "0 < \<lceil>x / 2\<rceil>" using big by simp
  with a b show "(x / 2, x) \<in> measure (\<lambda>x. nat \<lceil>x\<rceil> + 2 * nat \<lceil>1 / x\<rceil>)"
    by simp
next
  fix x :: real
  assume pos: "\<not> x \<le> 0" and "\<not> 2 \<le> x" and small: "x < 1"
  define a where "a = 1 / x"
  have a1: "1 < a" using pos small by (simp add: a_def)
  have h: "1 / (2 * x) = a / 2" by (simp add: a_def)
  have "\<lceil>a / 2\<rceil> \<le> \<lceil>a\<rceil> - 1"
  proof (cases "a \<le> 2")
    case True
    with a1 have "\<lceil>a / 2\<rceil> = 1" "\<lceil>a\<rceil> = 2" by (simp_all add: ceiling_eq_iff)
    then show ?thesis by simp
  next
    case False
    then have "a / 2 \<le> a - 1" by simp
    then have "\<lceil>a / 2\<rceil> \<le> \<lceil>a - 1\<rceil>" by (rule ceiling_mono)
    then show ?thesis by simp
  qed
  then have c1: "\<lceil>1 / (2 * x)\<rceil> \<le> \<lceil>1 / x\<rceil> - 1" unfolding h a_def .
  have "0 < \<lceil>a / 2\<rceil>" using a1 by simp
  then have c2: "0 < \<lceil>1 / (2 * x)\<rceil>" unfolding h .
  have c3: "\<lceil>x\<rceil> = 1" using pos small by (simp add: ceiling_eq_iff)
  have c4: "\<lceil>2 * x\<rceil> \<le> 2" using small by (simp add: ceiling_le_iff)
  have c5: "0 < \<lceil>2 * x\<rceil>" using pos by simp
  have "nat \<lceil>2 * x\<rceil> + 2 * nat \<lceil>1 / (2 * x)\<rceil> < nat \<lceil>x\<rceil> + 2 * nat \<lceil>1 / x\<rceil>"
    using c1 c2 c3 c4 c5 by linarith
  then show "(2 * x, x) \<in> measure (\<lambda>x. nat \<lceil>x\<rceil> + 2 * nat \<lceil>1 / x\<rceil>)"
    by simp
qed

declare exponent_of.simps [simp del]

definition round_even :: "real \<Rightarrow> int" where
  "round_even x =
     (let f = \<lfloor>x\<rfloor>; d = x - of_int f
      in if d < 1 / 2 then f else if 1 / 2 < d then f + 1 else if even f then f else f + 1)"

definition double_round :: "real \<Rightarrow> js_number" where
  "double_round x =
     (if x = 0 then Finite 0
      else
        let k = max (exponent_of \<bar>x\<bar> - 52) (- 1074);
            y = of_int (round_even (x / 2 powi k)) * 2 powi k
        in if 2 ^ 1024 \<le> y then PosInfinity
           else if y \<le> - (2 ^ 1024) then NegInfinity
           else Finite y)"

fun double_add :: "js_number \<Rightarrow> js_number \<Rightarrow> js_number" where
  "double_add (Finite a) (Finite b) = double_round (a + b)"
| "double_add NaN _ = NaN"
| "double_add _ NaN = NaN"
| "double_add PosInfinity NegInfinity = NaN"
| "double_add NegInfinity PosInfinity = NaN"
| "double_add PosInfinity _ = PosInfinity"
| "double_add _ PosInfinity = PosInfinity"
| "double_add NegInfinity _ = NegInfinity"
| "double_add _ NegInfinity = NegInfinity"

definition times_infinity :: "bool \<Rightarrow> js_number \<Rightarrow> js_number" where
  "times_infinity positive v =
     (case v of
        NaN \<Rightarrow> NaN
      | Finite b \<Rightarrow> if b = 0 then NaN
                    else if (0 < b) = positive then PosInfinity else NegInfinity
      | PosInfinity \<Rightarrow> if positive then PosInfinity else NegInfinity
      | NegInfinity \<Rightarrow> if positive then NegInfinity else PosInfinity)"

fun double_mul :: "js_number \<Rightarrow> js_number \<Rightarrow> js_number" where
  "double_mul (Finite a) (Finite b) = double_round (a * b)"
| "double_mul NaN _ = NaN"
| "double_mul PosInfinity v = times_infinity True v"
| "double_mul NegInfinity v = times_infinity False v"
| "double_mul v PosInfinity = times_infinity True v"
| "double_mul v NegInfinity = times_infinity False v"
| "double_mul _ NaN = NaN"

text \<open>
  The total of the \<open>Cart\<close> component: a left-to-right \<open>reduce\<close> from 0 in which each
  product and each sum is a double operation.
\<close>

definition total :: "cart_item list \<Rightarrow> js_number" where
  "total cart_items =
     fold (\<lambda>item sum.
             double_add sum
               (double_mul (Finite (price_at_sale item)) (Finite (real_of_int (quantity item)))))
       cart_items (Finite 0)"

text \<open>
  Division as JavaScript has it at a zero divisor, and the product of its result
  with a finite factor.  Where the divisor is not zero the quotient is exact:
  the rounding of these two operations is left out.
\<close>

definition js_divide :: "real \<Rightarrow> real \<Rightarrow> js_number" where
  "js_divide a b =
     (if b = 0 then (if a = 0 then NaN else if 0 < a then PosInfinity else NegInfinity)
      else Finite (a / b))"

definition js_times :: "js_number \<Rightarrow> real \<Rightarrow> js_number" where
  "js_times v b =
     (case v of
        Finite a \<Rightarrow> Finite (a * b)
      | PosInfinity \<Rightarrow> times_infinity True (Finite b)
      | NegInfinity \<Rightarrow> times_infinity False (Finite b)
      | NaN \<Rightarrow> NaN)"

section \<open>Checkout\<close>

text \<open>
  The rows of the backend tables that \<open>createSale\<close> writes.  A row of \<open>sales\<close> has
  the columns the client sends and the \<open>id\<close> and \<open>created_at\<close> the database assigns;
  a row of \<open>sale_items\<close> is a cart line with the \<open>sale_id\<close> added, as
  \<open>{ ...item, sale_id: saleId }\<close> builds it.  Of the \<open>products\<close> table only the
  \<open>stock\<close> column matters here, keyed by the product id.
\<close>

record sale =
  id_s :: int
  total_amount :: real
  total_cost :: real
  created_at_s :: int

record sale_row = sale +
  user_id :: string

record sale_item = cart_item +
  sale_id :: int

record backend =
  sales :: "sale_row list"
  sale_items :: "sale_item list"
  product_stock :: "int \<rightharpoonup> int"

text \<open>
  What the backend answers during one call of \<open>createSale\<close>: the id and timestamp
  it assigns to the new sale, and which requests come back with an error.  The
  requests of the stock loop are numbered by the position of the item in
  \<open>saleItems\<close>.  Fetching the row of a product that is not in the table is an error
  as well (\<open>.single()\<close>).
\<close>

record replies =
  new_sale_id :: int
  new_created_at :: int
  saleError :: bool
  itemsError :: bool
  productError :: "nat \<Rightarrow> bool"
  updateError :: "nat \<Rightarrow> bool"

datatype sale_error = SaleError | ItemsError

definition newStock :: "int \<Rightarrow> int \<Rightarrow> int" where
  "newStock currentStock qty = max 0 (currentStock - qty)"

text \<open>The body of the loop \<open>for (const item of saleItems)\<close>, for the item at position \<open>i\<close>.\<close>

definition update_stock :: "replies \<Rightarrow> nat \<Rightarrow> cart_item \<Rightarrow> (int \<rightharpoonup> int) \<Rightarrow> (int \<rightharpoonup> int)" where
  "update_stock r i item tbl =
     (let productId = product_id item; qty = quantity item
      in case (if productError r i then None else tbl productId) of
           None \<Rightarrow> tbl
         | Some current \<Rightarrow>
             if updateError r i then tbl
             else tbl(productId \<mapsto> newStock current qty))"

fun update_stocks :: "replies \<Rightarrow> nat \<Rightarrow> cart_item list \<Rightarrow> (int \<rightharpoonup> int) \<Rightarrow> (int \<rightharpoonup> int)" where
  "update_stocks r i [] tbl = tbl"
| "update_stocks r i (item # items) tbl = update_stocks r (Suc i) items (update_stock r i item tbl)"

text \<open>
  \<open>createSale\<close> returns the inserted row, or throws the error of the first or the
  second insert; the tables keep what was written before the throw.
\<close>

definition createSale ::
  "replies \<Rightarrow> string \<Rightarrow> cart_item list \<Rightarrow> real \<Rightarrow> real \<Rightarrow> backend \<Rightarrow> (sale_error + sale_row) \<times> backend" where
  "createSale r userId saleItems total_arg cost db =
     (if saleError r then (Inl SaleError, db)
      else
        let new_sale = \<lparr>id_s = new_sale_id r, total_amount = total_arg, total_cost = cost,
                        created_at_s = new_created_at r, user_id = userId\<rparr>;
            db1 = db\<lparr>sales := sales db @ [new_sale]\<rparr>;
            saleId = id_s new_sale;
            saleItemsWithSaleId =
              map (\<lambda>item. \<lparr>product_id = product_id item, quantity = quantity item,
                            price_at_sale = price_at_sale item,
                            cost_at_sale = cost_at_sale item, sale_id = saleId\<rparr>) saleItems
        in if itemsError r then (Inl ItemsError, db1)
           else
             let db2 = db1\<lparr>sale_items := sale_items db1 @ saleItemsWithSaleId\<rparr>
             in (Inr new_sale,
                 db2\<lparr>product_stock := update_stocks r 0 saleItems (product_stock db2)\<rparr>))"


section \<open>Reports\<close>

subsection \<open>Time values and the Date operations used\<close>

text \<open>
  A \<open>Date\<close> is its time value: milliseconds since the epoch, in UTC.  The functions
  below are the abstract operations of the ECMAScript specification that the
  \<open>Date\<close> constructor and the methods \<open>getFullYear\<close>, \<open>getMonth\<close>, \<open>getDate\<close>,
  \<open>getDay\<close>, \<open>setDate\<close> and \<open>setHours\<close> are defined by.
\<close>

definition msPerDay :: int where
  "msPerDay = 86400000"

definition Day :: "int \<Rightarrow> int" where
  "Day t = t div msPerDay"

definition TimeWithinDay :: "int \<Rightarrow> int" where
  "TimeWithinDay t = t mod msPerDay"

definition DaysInYear :: "int \<Rightarrow> int" where
  "DaysInYear y =
     (if y mod 4 \<noteq> 0 then 365
      else if y mod 100 \<noteq> 0 then 366
      else if y mod 400 \<noteq> 0 then 365
      else 366)"

definition DayFromYear :: "int \<Rightarrow> int" where
  "DayFromYear y =
     365 * (y - 1970) + (y - 1969) div 4 - (y - 1901) div 100 + (y - 1601) div 400"

text \<open>
  \<open>YearFromTime t\<close> is the largest year \<open>y\<close> with \<open>DayFromYear y \<le> Day t\<close>.  The search
  starts at a year that is not after it (no year has more than 366 days and
  none fewer than 365) and walks up.
\<close>

function year_upto :: "int \<Rightarrow> int \<Rightarrow> int" where
  "year_upto d y = (if DayFromYear (y + 1) \<le> d then year_upto d (y + 1) else y)"
  by pat_completeness auto
termination
proof (relation "measure (\<lambda>(d, y). nat (d + 1 - DayFromYear (y + 1)))")
  show "wf (measure (\<lambda>(d, y). nat (d + 1 - DayFromYear (y + 1))))"
    by simp
next
  fix d y :: int
  assume "DayFromYear (y + 1) \<le> d"
  moreover have "DayFromYear (y + 1) < DayFromYear (y + 1 + 1)"
  proof -
    have a: "(y + 1 - 1969) div 4 \<le> (y + 1 + 1 - 1969) div 4" by (rule zdiv_mono1) simp_all
    have b: "(y + 1 + 1 - 1901) div 100 \<le> (y + 1 - 1901) div 100 + 1" by linarith
    have c: "(y + 1 - 1601) div 400 \<le> (y + 1 + 1 - 1601) div 400" by (rule zdiv_mono1) simp_all
    have "\<And>p p' q q' r r' :: int. p \<le> p' \<Longrightarrow> q' \<le> q + 1 \<Longrightarrow> r \<le> r' \<Longrightarrow>
        365 * (y + 1 - 1970) + p - q + r < 365 * (y + 1 + 1 - 1970) + p' - q' + r'"
      by simp
    from this [OF a b c] show ?thesis unfolding DayFromYear_def .
  qed
  ultimately show "((d, y + 1), (d, y)) \<in> measure (\<lambda>(d, y). nat (d + 1 - DayFromYear (y + 1)))"
    by simp
qed

declare year_upto.simps [simp del]

definition YearFromTime :: "int \<Rightarrow> int" where
  "YearFromTime t =
     (let d = Day t
      in year_upto d (1970 + (if d < 0 then d div 365 else d div 366)))"

definition InLeapYear :: "int \<Rightarrow> int" where
  "InLeapYear t = (if DaysInYear (YearFromTime t) = 366 then 1 else 0)"

definition DayWithinYear :: "int \<Rightarrow> int" where
  "DayWithinYear t = Day t - DayFromYear (YearFromTime t)"

text \<open>The number of days of a year that lie before month \<open>m\<close> (0 to 11); \<open>leap\<close> is 0 or 1.\<close>

definition month_start :: "int \<Rightarrow> int \<Rightarrow> int" where
  "month_start m leap =
     (if m = 0 then 0 else if m = 1 then 31 else if m = 2 then 59 + leap
      else if m = 3 then 90 + leap else if m = 4 then 120 + leap
      else if m = 5 then 151 + leap else if m = 6 then 181 + leap
      else if m = 7 then 212 + leap else if m = 8 then 243 + leap
      else if m = 9 then 273 + leap else if m = 10 then 304 + leap
      else 334 + leap)"

definition MonthFromTime :: "int \<Rightarrow> int" where
  "MonthFromTime t =
     (let d = DayWithinYear t; leap = InLeapYear t
      in if d < 31 then 0 else if d < 59 + leap then 1 else if d < 90 + leap then 2
         else if d < 120 + leap then 3 else if d < 151 + leap then 4
         else if d < 181 + leap then 5 else if d < 212 + leap then 6
         else if d < 243 + leap then 7 else if d < 273 + leap then 8
         else if d < 304 + leap then 9 else if d < 334 + leap then 10
         else 11)"

definition DateFromTime :: "int \<Rightarrow> int" where
  "DateFromTime t = DayWithinYear t - month_start (MonthFromTime t) (InLeapYear t) + 1"

definition WeekDay :: "int \<Rightarrow> int" where
  "WeekDay t = (Day t + 4) mod 7"

text \<open>
  The time zone of the host is a parameter: \<open>z t True\<close> is the offset of local
  time from UTC, in milliseconds, at the UTC time value \<open>t\<close>, and \<open>z t False\<close> is the
  offset by which the local time value \<open>t\<close> is read (\<open>LocalTZA\<close> of the ECMAScript
  specification).  With daylight saving the two differ around a switch.
\<close>

type_synonym zone = "int \<Rightarrow> bool \<Rightarrow> int"

definition LocalTime :: "zone \<Rightarrow> int \<Rightarrow> int" where
  "LocalTime z t = t + z t True"

definition UTC :: "zone \<Rightarrow> int \<Rightarrow> int" where
  "UTC z t = t - z t False"

text \<open>
  A local time value \<open>t\<close> reads back when the instant that it denotes shows \<open>t\<close>
  on the local clock again; \<open>local_midnight z t\<close> is the local time value of the
  midnight that began the local day of the instant \<open>t\<close>.
\<close>

definition reads_back :: "zone \<Rightarrow> int \<Rightarrow> bool" where
  "reads_back z t = (LocalTime z (UTC z t) = t)"

definition local_midnight :: "zone \<Rightarrow> int \<Rightarrow> int" where
  "local_midnight z t = Day (LocalTime z t) * msPerDay"

definition MakeTime :: "int \<Rightarrow> int \<Rightarrow> int \<Rightarrow> int \<Rightarrow> int" where
  "MakeTime hour minute sec ms = hour * 3600000 + minute * 60000 + sec * 1000 + ms"

text \<open>
  \<open>MakeDay\<close>: the month may lie outside 0 to 11 and carries into the year; the day
  of the month may lie outside the month and carries into the days.
\<close>

definition MakeDay :: "int \<Rightarrow> int \<Rightarrow> int \<Rightarrow> int" where
  "MakeDay year month date =
     (let ym = year + month div 12; mn = month mod 12
      in DayFromYear ym + month_start mn (if DaysInYear ym = 366 then 1 else 0) + date - 1)"

definition MakeDate :: "int \<Rightarrow> int \<Rightarrow> int" where
  "MakeDate day time = day * msPerDay + time"

text \<open>
  \<open>new Date(year, month, date, hours, minutes, seconds, ms)\<close>, read in local
  time.  A year from 0 to 99 stands for 1900 to 1999.
\<close>

definition new_Date :: "zone \<Rightarrow> int \<Rightarrow> int \<Rightarrow> int \<Rightarrow> int \<Rightarrow> int \<Rightarrow> int \<Rightarrow> int \<Rightarrow> int" where
  "new_Date z year month date hours minutes seconds ms =
     (let yr = (if 0 \<le> year \<and> year \<le> 99 then 1900 + year else year)
      in UTC z (MakeDate (MakeDay yr month date) (MakeTime hours minutes seconds ms)))"

definition getFullYear :: "zone \<Rightarrow> int \<Rightarrow> int" where
  "getFullYear z t = YearFromTime (LocalTime z t)"

definition getMonth :: "zone \<Rightarrow> int \<Rightarrow> int" where
  "getMonth z t = MonthFromTime (LocalTime z t)"

definition getDate :: "zone \<Rightarrow> int \<Rightarrow> int" where
  "getDate z t = DateFromTime (LocalTime z t)"

definition getDay :: "zone \<Rightarrow> int \<Rightarrow> int" where
  "getDay z t = WeekDay (LocalTime z t)"

definition setDate :: "zone \<Rightarrow> int \<Rightarrow> int \<Rightarrow> int" where
  "setDate z t dt =
     (let lt = LocalTime z t
      in UTC z (MakeDate (MakeDay (YearFromTime lt) (MonthFromTime lt) dt) (TimeWithinDay lt)))"

definition setHours :: "zone \<Rightarrow> int \<Rightarrow> int \<Rightarrow> int \<Rightarrow> int \<Rightarrow> int \<Rightarrow> int" where
  "setHours z t hour minute sec ms =
     (let lt = LocalTime z t
      in UTC z (MakeDate (Day lt) (MakeTime hour minute sec ms)))"

subsection \<open>Period filter and financial metrics\<close>

record date_range =
  start_date :: int
  end_date :: int

text \<open>
  \<open>getDateRange\<close> of the finance page; \<open>now\<close> is the time value of the \<open>new Date()\<close>
  that the function takes first.
\<close>

definition getDateRange :: "zone \<Rightarrow> int \<Rightarrow> string \<Rightarrow> date_range" where
  "getDateRange z now period =
     (let today = new_Date z (getFullYear z now) (getMonth z now) (getDate z now) 0 0 0 0;
          yesterday = setDate z today (getDate z today - 1)
      in if period = ''today'' then \<lparr>start_date = today, end_date = now\<rparr>
         else if period = ''yesterday'' then
           (let endOfYesterday = setHours z yesterday 23 59 59 999
            in \<lparr>start_date = yesterday, end_date = endOfYesterday\<rparr>)
         else if period = ''this_week'' then
           (let startOfWeek = setDate z today (getDate z today - getDay z today)
            in \<lparr>start_date = startOfWeek, end_date = now\<rparr>)
         else if period = ''last_week'' then
           (let startOfLastWeek = setDate z today (getDate z today - getDay z today - 7);
                endOfLastWeek0 = setDate z startOfLastWeek (getDate z startOfLastWeek + 6);
                endOfLastWeek = setHours z endOfLastWeek0 23 59 59 999
            in \<lparr>start_date = startOfLastWeek, end_date = endOfLastWeek\<rparr>)
         else if period = ''this_month'' then
           (let startOfMonth = new_Date z (getFullYear z today) (getMonth z today) 1 0 0 0 0
            in \<lparr>start_date = startOfMonth, end_date = now\<rparr>)
         else if period = ''last_month'' then
           (let startOfLastMonth =
                  new_Date z (getFullYear z today) (getMonth z today - 1) 1 0 0 0 0;
                endOfLastMonth =
                  new_Date z (getFullYear z today) (getMonth z today) 0 23 59 59 999
            in \<lparr>start_date = startOfLastMonth, end_date = endOfLastMonth\<rparr>)
         else \<lparr>start_date = today, end_date = now\<rparr>)"

text \<open>\<open>filteredSales\<close>: the sales whose date lies between \<open>start\<close> and \<open>end\<close>.\<close>

definition filteredSales :: "zone \<Rightarrow> int \<Rightarrow> string \<Rightarrow> 'a sale_scheme list \<Rightarrow> 'a sale_scheme list" where
  "filteredSales z now selectedPeriod sale_list =
     (let range = getDateRange z now selectedPeriod
      in filter (\<lambda>s. let saleDate = created_at_s s
                      in saleDate \<ge> start_date range \<and> saleDate \<le> end_date range) sale_list)"

text \<open>
  \<open>financialMetrics\<close> of the finance page.  The sums and the difference are
  exact; the margin is a JavaScript number, which the quotient would make
  \<open>NaN\<close> or infinite at a revenue of 0.
\<close>

record metrics =
  totalRevenue :: real
  totalCost :: real
  totalProfit :: real
  profitMargin :: js_number

definition financialMetrics :: "'a sale_scheme list \<Rightarrow> metrics" where
  "financialMetrics filtered =
     (let revenue = fold (\<lambda>s sum. sum + total_amount s) filtered 0;
          cost = fold (\<lambda>s sum. sum + total_cost s) filtered 0;
          profit = revenue - cost;
          margin = (if revenue > 0 then js_times (js_divide profit revenue) 100 else Finite 0)
      in \<lparr>totalRevenue = revenue, totalCost = cost, totalProfit = profit,
          profitMargin = margin\<rparr>)"

section \<open>Inventory filters\<close>

text \<open>
  \<open>Array.prototype.sort\<close> with a comparator: \<open>a\<close> stays before \<open>b\<close> unless the
  comparator is positive on them, and elements that compare equal keep their
  order (the sort is stable since ECMAScript 2019).  Insertion from the right end
  of the list computes this order.
\<close>

fun insert_by :: "('a \<Rightarrow> 'a \<Rightarrow> int) \<Rightarrow> 'a \<Rightarrow> 'a list \<Rightarrow> 'a list" where
  "insert_by cmp x [] = [x]"
| "insert_by cmp x (y # ys) = (if cmp x y \<le> 0 then x # y # ys else y # insert_by cmp x ys)"

definition array_sort :: "('a \<Rightarrow> 'a \<Rightarrow> int) \<Rightarrow> 'a list \<Rightarrow> 'a list" where
  "array_sort cmp xs = foldr (insert_by cmp) xs []"

datatype filter_type = FilterAll | FilterLowStock | FilterNew

text \<open>
  The effect of the inventory page that runs when \<open>filterType\<close> or \<open>allProducts\<close>
  changes; it returns the new value of \<open>products\<close>.  \<open>Math.ceil(n * 0.2)\<close> is taken
  over the reals: for a list length \<open>n\<close> the double product \<open>n * 0.2\<close> lies in the
  same interval between two integers as \<open>n / 5\<close>, or is that integer.
\<close>

definition filter_effect :: "filter_type \<Rightarrow> product list \<Rightarrow> product list \<Rightarrow> product list" where
  "filter_effect filterType allProducts shown =
     (if length allProducts = 0 then shown
      else case filterType of
        FilterLowStock \<Rightarrow> filter (\<lambda>p. stock p \<le> low_stock_threshold p) allProducts
      | FilterNew \<Rightarrow>
          (let sortedByDate =
                 array_sort (\<lambda>a b. let dateA = created_at a; dateB = created_at b
                                     in dateB - dateA) allProducts;
               newCount = max (nat \<lceil>real (length sortedByDate) * 0.2\<rceil>) 5
           in take newCount sortedByDate)
      | FilterAll \<Rightarrow> allProducts)"

section \<open>Product images\<close>

text \<open>
  Strings are byte lists.  \<open>str_includes\<close> is \<open>String.prototype.includes\<close>, and
  \<open>encodeURIComponent\<close> escapes every byte but the unreserved characters as a
  percent sign and two upper-case hexadecimal digits.
\<close>

fun str_includes :: "string \<Rightarrow> string \<Rightarrow> bool" where
  "str_includes [] pat = (pat = [])"
| "str_includes (c # cs) pat = (take (length pat) (c # cs) = pat \<or> str_includes cs pat)"

definition uri_unreserved :: "char \<Rightarrow> bool" where
  "uri_unreserved c =
     (c \<in> set ''ABCDEFGHIJKLMNOPQRSTUVWXYZabcdefghijklmnopqrstuvwxyz0123456789-_.!~*()''
      \<or> c = CHR 0x27)"

definition hex_digit :: "nat \<Rightarrow> char" where
  "hex_digit n = ''0123456789ABCDEF'' ! (n mod 16)"

definition encodeURIComponent :: "string \<Rightarrow> string" where
  "encodeURIComponent s =
     concat (map (\<lambda>c. if uri_unreserved c then [c]
                       else [CHR ''%'', hex_digit (of_char c div 16), hex_digit (of_char c)]) s)"

text \<open>
  The file chosen in the form, and what object storage answers to the one upload
  request of a call: an error object, an exception, or success with the public
  URL that \<open>getPublicUrl\<close> hands back, if any.  The outcome of \<open>getBucket\<close> is only
  logged.
\<close>

record upload_file =
  file_name :: string
  file_size :: nat

datatype storage_reply = UploadError | UploadThrows | Uploaded "string option"

datatype js_error = JsError (err_message: string) (err_code: "string option")

definition getPlaceholderImageUrl :: "string \<Rightarrow> string" where
  "getPlaceholderImageUrl filename =
     (let placeholderText = ''Product+Image''; bgColor = ''e2e8f0''; textColor = ''64748b''
      in ''https://placehold.co/300x300/'' @ bgColor @ ''/'' @ textColor @ ''?text='' @ placeholderText)"

definition maxRetries :: nat where
  "maxRetries = 2"

text \<open>
  The body of the \<open>try\<close> block of \<open>uploadWithRetry\<close>: \<open>Inl\<close> is an error thrown to the
  \<open>catch\<close> of the retry loop, \<open>Inr\<close> is the URL returned.
\<close>

definition attempt_upload :: "string \<Rightarrow> upload_file \<Rightarrow> storage_reply \<Rightarrow> js_error + string" where
  "attempt_upload userId file reply =
     (if userId = [] then Inl (JsError ''User ID is required for image upload'' None)
      else if file_size file > 5242880 then Inl (JsError ''File size exceeds 5MB limit'' None)
      else case reply of
        UploadError \<Rightarrow> Inr (getPlaceholderImageUrl (file_name file))
      | UploadThrows \<Rightarrow> Inr (getPlaceholderImageUrl (file_name file))
      | Uploaded urlData \<Rightarrow>
          (case urlData of
             None \<Rightarrow> Inr (getPlaceholderImageUrl (file_name file))
           | Some publicUrl \<Rightarrow>
               if publicUrl = [] then Inr (getPlaceholderImageUrl (file_name file))
               else Inr publicUrl))"

function uploadWithRetry :: "string \<Rightarrow> upload_file \<Rightarrow> storage_reply \<Rightarrow> nat \<Rightarrow> js_error + string" where
  "uploadWithRetry userId file reply retryCount =
     (case attempt_upload userId file reply of
        Inr url \<Rightarrow> Inr url
      | Inl err \<Rightarrow>
          if retryCount < maxRetries
          then uploadWithRetry userId file reply (retryCount + 1)
          else if str_includes (err_message err) ''permission'' \<or> err_code err = Some ''42501''
                  \<or> str_includes (err_message err) ''not authorized''
          then Inl (JsError (''Permission denied: '' @ err_message err
                               @ ''. Please check storage bucket policies.'') None)
          else Inl err)"
  by pat_completeness auto
termination
  by (relation "measure (\<lambda>(userId, file, reply, retryCount). maxRetries - retryCount)") auto

declare uploadWithRetry.simps [simp del]

definition uploadProductImage :: "string \<Rightarrow> upload_file \<Rightarrow> storage_reply \<Rightarrow> string" where
  "uploadProductImage userId file reply =
     (case uploadWithRetry userId file reply 0 of
        Inr url \<Rightarrow> url
      | Inl finalError \<Rightarrow>
          (let errorMsg = encodeURIComponent
                 (if err_message finalError = [] then ''Unknown error''
                  else err_message finalError)
           in ''https://placehold.co/300x300/e2e8f0/64748b?text=Upload+Failed:+''
                @ take 50 errorMsg))"

text \<open>
  \<open>handleSubmit\<close> of the product form, up to the call of \<open>createProduct\<close> or
  \<open>updateProduct\<close>: \<open>SaveWith url\<close> says that the product is submitted with
  \<open>image_url = url\<close>.  \<open>uploadProductImage\<close> catches every error itself, so the
  \<open>catch\<close> around its call is never entered.
\<close>

datatype submit_outcome = NotSubmitted | ImageUploadFailed | SaveWith string

definition handleSubmit ::
  "bool \<Rightarrow> string option \<Rightarrow> string \<Rightarrow> upload_file option \<Rightarrow> storage_reply \<Rightarrow> submit_outcome" where
  "handleSubmit valid form_user form_image_url imageFile reply =
     (case form_user of
        None \<Rightarrow> NotSubmitted
      | Some userId \<Rightarrow>
          if \<not> valid then NotSubmitted
          else (case imageFile of
                  None \<Rightarrow> SaveWith form_image_url
                | Some file \<Rightarrow>
                    (let imageUrl = uploadProductImage userId file reply
                     in if imageUrl = [] \<or> str_includes imageUrl ''placeholder''
                        then ImageUploadFailed
                        else SaveWith imageUrl)))"

text \<open>An upload fails when it does not end with a public URL of the stored image.\<close>

definition upload_fails :: "string \<Rightarrow> upload_file \<Rightarrow> storage_reply \<Rightarrow> bool" where
  "upload_fails userId file reply =
     (userId = [] \<or> file_size file > 5242880 \<or> reply = UploadError \<or> reply = UploadThrows
      \<or> reply = Uploaded None \<or> reply = Uploaded (Some []))"

section \<open>Example data\<close>

text \<open>A till with one product in the catalog cache and one line in the cart.\<close>

definition tea :: product where
  "tea = \<lparr>id_p = Some 1, name = ''tea'', image_url = '''', selling_price = 10,
           cost_price = 6, stock = 5, low_stock_threshold = 2, created_at = 0\<rparr>"

definition tea_line :: cart_item where
  "tea_line = \<lparr>product_id = 1, quantity = 2, price_at_sale = 10, cost_at_sale = 6\<rparr>"

definition till :: pos_state where
  "till = \<lparr>user = Some ''owner'', products = [tea], cart = [tea_line], modalOpen = False,
            modalContent = \<lparr>title = '''', message = '''', mtype = Info\<rparr>\<rparr>"

definition ghost_till :: pos_state where
  "ghost_till = till\<lparr>products := []\<rparr>"

definition empty_till :: pos_state where
  "empty_till = till\<lparr>cart := []\<rparr>"

definition sold_out_till :: pos_state where
  "sold_out_till = till\<lparr>products := [tea\<lparr>stock := 0\<rparr>], cart := []\<rparr>"

definition full_till :: pos_state where
  "full_till = till\<lparr>cart := [tea_line\<lparr>quantity := 5\<rparr>]\<rparr>"

definition coffee_line :: cart_item where
  "coffee_line = \<lparr>product_id = 2, quantity = 1, price_at_sale = 5, cost_at_sale = 3\<rparr>"

text \<open>A backend that answers every request, a shop with two products, and the cart of the checkout example.\<close>

definition quiet :: replies where
  "quiet = \<lparr>new_sale_id = 1, new_created_at = 0, saleError = False, itemsError = False,
            productError = (\<lambda>i. False), updateError = (\<lambda>i. False)\<rparr>"


definition shop :: backend where
  "shop = \<lparr>sales = [], sale_items = [], product_stock = [1 \<mapsto> 5, 2 \<mapsto> 4]\<rparr>"


text \<open>
  Sales of the history: one made at 2023-11-14 22:13:20 UTC, one made at the
  midnight that began that day, and one that brought nothing in.
\<close>

definition closing_sale :: sale where
  "closing_sale = \<lparr>id_s = 1, total_amount = 25, total_cost = 15, created_at_s = 1700000000000\<rparr>"

definition opening_sale :: sale where
  "opening_sale = \<lparr>id_s = 3, total_amount = 5, total_cost = 3, created_at_s = 1699920000000\<rparr>"

definition free_sale :: sale where
  "free_sale = \<lparr>id_s = 2, total_amount = 0, total_cost = 0, created_at_s = 1700000000000\<rparr>"

text \<open>
  Two time zones: UTC, and central European time with the summer time of 2024
  (clocks go from 02:00 to 03:00 on 31 March and from 03:00 back to 02:00 on
  27 October; a local time that is skipped or occurs twice is read with the
  offset in force before the switch).
\<close>

definition utc :: zone where
  "utc t isUTC = 0"

definition central_europe_2024 :: zone where
  "central_europe_2024 t isUTC =
     (if isUTC then (if 1711846800000 \<le> t \<and> t < 1729990800000 then 7200000 else 3600000)
      else (if 1711854000000 \<le> t \<and> t < 1729998000000 then 7200000 else 3600000))"

text \<open>A catalog of twenty products created one after the other, and an image file.\<close>

definition catalog20 :: "product list" where
  "catalog20 = map (\<lambda>i. tea\<lparr>id_p := Some (int i), created_at := int i\<rparr>) [1..<21]"

definition photo :: upload_file where
  "photo = \<lparr>file_name = ''tea.png'', file_size = 204800\<rparr>"

text \<open>
  Three cart lines priced at the doubles nearest to 0.1, 0.2 and 0.3, one piece
  each.
\<close>

definition line_01 :: cart_item where
  "line_01 = \<lparr>product_id = 1, quantity = 1,
              price_at_sale = 3602879701896397 / 36028797018963968, cost_at_sale = 0\<rparr>"

definition line_02 :: cart_item where
  "line_02 = \<lparr>product_id = 2, quantity = 1,
              price_at_sale = 3602879701896397 / 18014398509481984, cost_at_sale = 0\<rparr>"

definition line_03 :: cart_item where
  "line_03 = \<lparr>product_id = 3, quantity = 1,
              price_at_sale = 5404319552844595 / 18014398509481984, cost_at_sale = 0\<rparr>"

section \<open>Lemmas on the cart lines\<close>

lemma find_line_map:
  assumes "\<And>item. product_id (f item) = product_id item"
  shows "find (\<lambda>item. product_id item = k)
           (map (\<lambda>item. if product_id item = pid then f item else item) c)
         = (if k = pid then map_option f (find (\<lambda>item. product_id item = k) c)
            else find (\<lambda>item. product_id item = k) c)"
  using assms by (induction c) auto

lemma ids_line_map:
  assumes "\<And>item. product_id (f item) = product_id item"
  shows "map product_id (map (\<lambda>item. if product_id item = pid then f item else item) c)
         = map product_id c"
  using assms by (induction c) auto

lemma find_line_None: "find (\<lambda>item. product_id item = k) c = None \<longleftrightarrow> k \<notin> set (map product_id c)"
  by (induction c) auto

lemma find_line_Some:
  "find (\<lambda>item. product_id item = k) c = Some l \<Longrightarrow> l \<in> set c \<and> product_id l = k"
  by (induction c) (auto split: if_splits)

section \<open>The cart invariant\<close>

lemma ids_comp_quantity [simp]:
  "product_id \<circ> (\<lambda>item. if product_id item = pid then item\<lparr>quantity := g item\<rparr> else item)
     = product_id"
  by auto

lemma cart_ok_add: "cart_ok (cart st) \<Longrightarrow> cart_ok (cart (handleAddToCart st pid))"
  by (auto simp: handleAddToCart_def notify_def cart_ok_def Let_def list_all_iff
        find_line_None ids_line_map [where f = "\<lambda>item. item\<lparr>quantity := quantity item + 1\<rparr>"]
      split: option.splits)

lemma distinct_add:
  "distinct (map product_id (cart st)) \<Longrightarrow> distinct (map product_id (cart (handleAddToCart st pid)))"
  by (auto simp: handleAddToCart_def notify_def Let_def
        find_line_None ids_line_map [where f = "\<lambda>item. item\<lparr>quantity := quantity item + 1\<rparr>"]
      split: option.splits)

lemma cart_ok_update: "cart_ok (cart st) \<Longrightarrow> cart_ok (cart (handleUpdateQuantity st pid q))"
  by (auto simp: handleUpdateQuantity_def notify_def cart_ok_def Let_def list_all_iff distinct_map_filter
        ids_line_map [where f = "\<lambda>item. item\<lparr>quantity := q\<rparr>"]
      split: option.splits)

lemma products_add [simp]: "products (handleAddToCart st pid) = products st"
  by (simp add: handleAddToCart_def notify_def Let_def split: option.splits)

lemma products_update [simp]: "products (handleUpdateQuantity st pid q) = products st"
  by (simp add: handleUpdateQuantity_def notify_def Let_def split: option.splits)

lemma products_event [simp]: "products (apply_event e st) = products st"
  by (cases e) simp_all

lemma cart_ok_event: "cart_ok (cart st) \<Longrightarrow> cart_ok (cart (apply_event e st))"
  by (cases e) (simp_all add: cart_ok_add cart_ok_update)

lemma cart_ok_session: "cart_ok (cart st) \<Longrightarrow> cart_ok (cart (session evs st))"
  unfolding session_def by (induction evs arbitrary: st) (simp_all add: cart_ok_event)

lemma sold_out_add:
  assumes "find (\<lambda>p. id_p p = Some pid) (products st) = Some P" "stock P \<le> 0"
    and "pid \<notin> set (map product_id (cart st))"
  shows "handleAddToCart st pid = notify ''max_stock_reached'' Error st"
proof -
  from assms(3) have "find (\<lambda>item. product_id item = pid) (cart st) = None"
    by (simp only: find_line_None not_False_eq_True)
  with assms(1,2) show ?thesis
    by (simp add: handleAddToCart_def Let_def)
qed

lemma ids_add_other:
  "set (map product_id (cart (handleAddToCart st k))) \<subseteq> insert k (set (map product_id (cart st)))"
  by (auto simp: handleAddToCart_def notify_def Let_def split: option.splits)

lemma ids_update:
  "set (map product_id (cart (handleUpdateQuantity st k q))) \<subseteq> set (map product_id (cart st))"
  by (auto simp: handleUpdateQuantity_def notify_def Let_def split: option.splits)

lemma absent_add:
  assumes "find (\<lambda>p. id_p p = Some pid) (products st) = Some P" "stock P \<le> 0"
    and "pid \<notin> set (map product_id (cart st))"
  shows "pid \<notin> set (map product_id (cart (handleAddToCart st k)))"
proof (cases "k = pid")
  case True
  with assms show ?thesis by (simp add: sold_out_add notify_def)
next
  case False
  with assms(3) ids_add_other [of st k] show ?thesis by blast
qed

lemma absent_update:
  assumes "pid \<notin> set (map product_id (cart st))"
  shows "pid \<notin> set (map product_id (cart (handleUpdateQuantity st k q)))"
  using assms ids_update [of st k q] by blast

lemma absent_session:
  assumes "find (\<lambda>p. id_p p = Some pid) (products st) = Some P" "stock P \<le> 0"
    and "pid \<notin> set (map product_id (cart st))"
  shows "pid \<notin> set (map product_id (cart (session evs st)))"
  using assms unfolding session_def
proof (induction evs arbitrary: st)
  case Nil
  then show ?case by simp
next
  case (Cons e evs)
  have "pid \<notin> set (map product_id (cart (apply_event e st)))"
    using Cons.prems by (cases e) (simp_all add: absent_add absent_update del: set_map)
  moreover have "find (\<lambda>p. id_p p = Some pid) (products (apply_event e st)) = Some P"
    using Cons.prems by simp
  ultimately show ?case using Cons.IH [of "apply_event e st"] Cons.prems(2) by simp
qed

section \<open>Lemmas on the checkout\<close>

lemma update_stock_cases:
  "update_stock r i item tbl = tbl \<or>
   (\<exists>current. tbl (product_id item) = Some current \<and>
      update_stock r i item tbl = tbl(product_id item \<mapsto> newStock current (quantity item)))"
  by (auto simp: update_stock_def Let_def split: option.splits if_splits)

lemma newStock_nonneg: "0 \<le> newStock current qty"
  by (simp add: newStock_def)

lemma update_stock_changed:
  assumes "update_stock r i item tbl k \<noteq> tbl k"
  shows "\<exists>v. update_stock r i item tbl k = Some v \<and> 0 \<le> v"
  using assms update_stock_cases [of r i item tbl]
  by (auto simp: newStock_nonneg split: if_splits)

lemma update_stock_nonneg:
  assumes "tbl k = Some v" "0 \<le> v"
  shows "\<exists>w. update_stock r i item tbl k = Some w \<and> 0 \<le> w"
  using assms update_stock_cases [of r i item tbl]
  by (auto simp: newStock_nonneg split: if_splits)

lemma update_stocks_nonneg:
  assumes "tbl k = Some v" "0 \<le> v"
  shows "\<exists>w. update_stocks r i items tbl k = Some w \<and> 0 \<le> w"
  using assms
proof (induction items arbitrary: i tbl v)
  case Nil
  then show ?case by simp
next
  case (Cons item items)
  from update_stock_nonneg [of tbl k v r i item] Cons.prems
  obtain w where "update_stock r i item tbl k = Some w" "0 \<le> w" by blast
  from Cons.IH [of "update_stock r i item tbl" w "Suc i"] this show ?case by simp
qed

lemma update_stocks_changed:
  assumes "update_stocks r i items tbl k \<noteq> tbl k"
  shows "\<exists>v. update_stocks r i items tbl k = Some v \<and> 0 \<le> v"
  using assms
proof (induction items arbitrary: i tbl)
  case Nil
  then show ?case by simp
next
  case (Cons item items)
  show ?case
  proof (cases "update_stock r i item tbl k = tbl k")
    case True
    with Cons.prems have "update_stocks r (Suc i) items (update_stock r i item tbl) k
        \<noteq> update_stock r i item tbl k" by simp
    from Cons.IH [of "Suc i" "update_stock r i item tbl"] this True show ?thesis by simp
  next
    case False
    from update_stock_changed [OF this] obtain v
      where "update_stock r i item tbl k = Some v" "0 \<le> v" by blast
    from update_stocks_nonneg [of "update_stock r i item tbl" k v r "Suc i" items] this
    show ?thesis by simp
  qed
qed

lemma update_stock_other:
  "k \<noteq> product_id item \<Longrightarrow> update_stock r i item tbl k = tbl k"
  by (simp add: update_stock_def Let_def split: option.splits)

lemma update_stocks_untouched:
  "k \<notin> set (map product_id items) \<Longrightarrow> update_stocks r i items tbl k = tbl k"
  by (induction items arbitrary: i tbl) (simp_all add: update_stock_other)

lemma update_stocks_sold:
  assumes "distinct (map product_id items)" "j < length items"
    and "tbl (product_id (items ! j)) = Some cur"
  shows "update_stocks r i items tbl (product_id (items ! j))
     = (if productError r (i + j) \<or> updateError r (i + j) then Some cur
        else Some (max 0 (cur - quantity (items ! j))))"
  using assms
proof (induction items arbitrary: i j tbl)
  case Nil
  then show ?case by simp
next
  case (Cons item items)
  show ?case
  proof (cases j)
    case 0
    with Cons.prems have "product_id item \<notin> set (map product_id items)" by simp
    then have "update_stocks r (Suc i) items (update_stock r i item tbl) (product_id item)
        = update_stock r i item tbl (product_id item)"
      by (rule update_stocks_untouched)
    moreover from 0 Cons.prems(3) have "update_stock r i item tbl (product_id item)
        = (if productError r i \<or> updateError r i then Some cur
           else Some (max 0 (cur - quantity item)))"
      by (simp add: update_stock_def newStock_def Let_def)
    ultimately show ?thesis using 0 by simp
  next
    case (Suc j')
    with Cons.prems have "items ! j' \<in> set items" "product_id item \<notin> product_id ` set items"
      by simp_all
    then have ne: "product_id (items ! j') \<noteq> product_id item" by (metis imageI)
    from Suc Cons.prems have d: "distinct (map product_id items)" and l: "j' < length items"
      and t: "update_stock r i item tbl (product_id (items ! j')) = Some cur"
      by (simp_all add: update_stock_other [OF ne])
    from Cons.IH [of j' "update_stock r i item tbl" "Suc i"] d l t Suc show ?thesis by simp
  qed
qed

lemma createSale_stock:
  "product_stock (snd (createSale r u items t c db)) =
     (if saleError r \<or> itemsError r then product_stock db
      else update_stocks r 0 items (product_stock db))"
  by (simp add: createSale_def Let_def)





section \<open>Lemmas on time values and date ranges\<close>

text \<open>The year search meets its specification: the year found is the largest one that starts on or before the day.\<close>

lemma year_upto_bounds:
  "y \<le> year_upto d y \<and> d < DayFromYear (year_upto d y + 1)
   \<and> (DayFromYear y \<le> d \<longrightarrow> DayFromYear (year_upto d y) \<le> d)"
proof (induction d y rule: year_upto.induct)
  case (1 d y)
  show ?case
  proof (cases "DayFromYear (y + 1) \<le> d")
    case True
    with "1.IH" show ?thesis by (subst (1 2 3) year_upto.simps) simp
  next
    case False
    then show ?thesis by (subst (1 2 3) year_upto.simps) simp
  qed
qed

lemma div_400: "(k + 369) div 400 = ((k + 69) div 100 + 3) div (4::int)"
proof -
  have "(k + 369) div 400 = ((k + 369) div 100) div 4"
    using zdiv_zmult2_eq [of 100 "k + 369" 4] by simp
  moreover have "(k + 369) div 100 = (k + 69) div 100 + 3"
    using div_add_self2 [of 100 "k + 269"] div_add_self2 [of 100 "k + 169"]
      div_add_self2 [of 100 "k + 69"] by (simp add: add.assoc)
  ultimately show ?thesis by simp
qed

lemma div_times_le:
  assumes "0 < b"
  shows "b * (a div b) \<le> (a::int)"
proof -
  have "b * (a div b) + a mod b = a" by simp
  moreover have "0 \<le> a mod b" using assms by simp
  ultimately show ?thesis by linarith
qed

lemma div_times_gt:
  assumes "0 < b"
  shows "(a::int) < b * (a div b) + b"
proof -
  have "b * (a div b) + a mod b = a" by simp
  moreover have "a mod b < b" using assms by simp
  ultimately show ?thesis by linarith
qed

lemma leap_days_after:
  assumes "0 \<le> k"
  shows "(k + 1) div 4 - (k + 69) div 100 + (k + 369) div 400 \<le> (k::int)"
proof -
  define m where "m = (k + 69) div 100"
  define q where "q = (k + 1) div 4"
  define r where "r = (m + 3) div 4"
  have m0: "0 \<le> m" using assms unfolding m_def by (simp add: pos_imp_zdiv_nonneg_iff)
  have "4 * q \<le> k + 1" unfolding q_def by (rule div_times_le) simp
  with assms have q1: "q \<le> k" by linarith
  have "4 * r \<le> m + 3" unfolding r_def by (rule div_times_le) simp
  then have "r \<le> m" using m0 by linarith
  with q1 have "q - m + r \<le> k" by linarith
  then show ?thesis unfolding div_400 m_def q_def r_def .
qed

lemma leap_days_before:
  assumes "k < 0"
  shows "(k + 1) div 4 - (k + 69) div 100 + (k + 369) div 400 \<le> (0::int)"
proof -
  define m where "m = (k + 69) div 100"
  define q where "q = (k + 1) div 4"
  define r where "r = (m + 3) div 4"
  have m1: "100 * m \<le> k + 69" unfolding m_def by (rule div_times_le) simp
  have m2: "k + 69 < 100 * m + 100" unfolding m_def by (rule div_times_gt) simp
  have q1: "4 * q \<le> k + 1" unfolding q_def by (rule div_times_le) simp
  have r1: "4 * r \<le> m + 3" unfolding r_def by (rule div_times_le) simp
  have "q - m + r \<le> 0"
    using m1 m2 q1 r1 assms by linarith
  then show ?thesis unfolding div_400 m_def q_def r_def .
qed

lemma DayFromYear_shape:
  "DayFromYear (1970 + k) = 365 * k + ((k + 1) div 4 - (k + 69) div 100 + (k + 369) div 400)"
  by (simp add: DayFromYear_def add.commute)

lemma YearFromTime_correct:
  "DayFromYear (YearFromTime t) \<le> Day t \<and> Day t < DayFromYear (YearFromTime t + 1)"
proof -
  define d where "d = Day t"
  define y0 where "y0 = 1970 + (if d < 0 then d div 365 else d div 366)"
  have "DayFromYear y0 \<le> d"
  proof (cases "d < 0")
    case True
    define k where "k = d div 365"
    have "k < 0" using True unfolding k_def by (simp add: div_neg_pos_less0)
    from leap_days_before [OF this] have "DayFromYear (1970 + k) \<le> 365 * k"
      unfolding DayFromYear_shape by simp
    also have "\<dots> \<le> d" unfolding k_def by (rule div_times_le) simp
    finally show ?thesis using True by (simp add: y0_def k_def)
  next
    case False
    define k where "k = d div 366"
    have "0 \<le> k" using False unfolding k_def by (simp add: pos_imp_zdiv_nonneg_iff)
    from leap_days_after [OF this] have "DayFromYear (1970 + k) \<le> 366 * k"
      unfolding DayFromYear_shape by simp
    also have "\<dots> \<le> d" unfolding k_def by (rule div_times_le) simp
    finally show ?thesis using False by (simp add: y0_def k_def)
  qed
  with year_upto_bounds [of y0 d]
  have "DayFromYear (year_upto d y0) \<le> d \<and> d < DayFromYear (year_upto d y0 + 1)"
    by blast
  moreover have "YearFromTime t = year_upto d y0"
    by (simp add: YearFromTime_def d_def y0_def Let_def)
  ultimately show ?thesis by (simp add: d_def)
qed

lemma MonthFromTime_range: "0 \<le> MonthFromTime t \<and> MonthFromTime t \<le> 11"
  by (simp add: MonthFromTime_def Let_def)

lemma MakeDay_fields:
  "MakeDay (YearFromTime t) (MonthFromTime t) (DateFromTime t + k) = Day t + k"
proof -
  have m: "MonthFromTime t div 12 = 0" "MonthFromTime t mod 12 = MonthFromTime t"
    using MonthFromTime_range [of t] by simp_all
  show ?thesis
    by (simp add: MakeDay_def m DateFromTime_def DayWithinYear_def InLeapYear_def)
qed

lemma MakeDay_shift: "MakeDay y m (d + k) = MakeDay y m d + k"
  by (simp add: MakeDay_def Let_def)

lemma Day_midnight [simp]: "Day (d * msPerDay) = d"
  by (simp add: Day_def msPerDay_def)

lemma TimeWithinDay_midnight [simp]: "TimeWithinDay (d * msPerDay) = 0"
  by (simp add: TimeWithinDay_def)

lemma Day_split: "Day t * msPerDay + TimeWithinDay t = t"
  by (simp add: Day_def TimeWithinDay_def)

lemma same_day_fields:
  assumes "Day t = Day t'"
  shows "YearFromTime t = YearFromTime t'" "MonthFromTime t = MonthFromTime t'"
    "DateFromTime t = DateFromTime t'" "WeekDay t = WeekDay t'"
proof -
  show y: "YearFromTime t = YearFromTime t'" using assms by (simp add: YearFromTime_def)
  then have l: "InLeapYear t = InLeapYear t'" and w: "DayWithinYear t = DayWithinYear t'"
    using assms by (simp_all add: InLeapYear_def DayWithinYear_def)
  then show m: "MonthFromTime t = MonthFromTime t'" by (simp add: MonthFromTime_def)
  with l w show "DateFromTime t = DateFromTime t'" by (simp add: DateFromTime_def)
  from assms show "WeekDay t = WeekDay t'" by (simp add: WeekDay_def)
qed

lemma WeekDay_week_start:
  "WeekDay ((d - (d + 4) mod 7) * msPerDay) = 0"
proof -
  have "(d - (d + 4) mod 7 + 4) mod 7 = 0" by presburger
  then show ?thesis by (simp add: WeekDay_def)
qed

text \<open>Calendar facts: a year is followed by the next after its number of days, and a day determines its year, month and day of the month.\<close>

lemma div_step:
  assumes "0 < d"
  shows "(a + 1) div d - a div d = (if (a + 1) mod d = 0 then 1 else (0::int))"
proof (cases "(a + 1) mod d = 0")
  case True
  then obtain q where q: "a + 1 = d * q" by (auto simp: mod_eq_0_iff_dvd)
  then have "a = d * (q - 1) + (d - 1)" by (simp add: algebra_simps)
  then have "a div d = q - 1" by (rule int_div_pos_eq) (use assms in simp_all)
  moreover have "(a + 1) div d = q" using q assms by simp
  ultimately show ?thesis using True by simp
next
  case False
  have "0 \<le> (a + 1) mod d" "(a + 1) mod d < d"
    using assms by simp_all
  with False have r: "0 < (a + 1) mod d" "(a + 1) mod d < d" by simp_all
  define q where "q = (a + 1) div d"
  define r where "r = (a + 1) mod d - 1"
  have "a + 1 = d * q + (r + 1)" unfolding q_def r_def by simp
  then have "a = d * q + r" by linarith
  moreover have "0 \<le> r" "r < d" using r by (simp_all add: r_def)
  ultimately have "a div d = q" by (rule int_div_pos_eq)
  then show ?thesis using False by (simp add: q_def)
qed

lemma leap_step_4: "(y - 1968) div 4 - (y - 1969) div 4 = (if y mod 4 = 0 then 1 else (0::int))"
proof -
  have "y - 1969 + 1 = y - 1968" by simp
  moreover have "(y - 1968) mod 4 = y mod 4" by presburger
  ultimately show ?thesis using div_step [of 4 "y - 1969"] by (simp only: )
qed

lemma leap_step_100: "(y - 1900) div 100 - (y - 1901) div 100 = (if y mod 100 = 0 then 1 else (0::int))"
proof -
  have "y - 1901 + 1 = y - 1900" by simp
  moreover have "(y - 1900) mod 100 = y mod 100"
    using mod_mult_self2 [of y 100 "- 19"] by simp
  ultimately show ?thesis using div_step [of 100 "y - 1901"] by (simp only: )
qed

lemma leap_step_400: "(y - 1600) div 400 - (y - 1601) div 400 = (if y mod 400 = 0 then 1 else (0::int))"
proof -
  have "y - 1601 + 1 = y - 1600" by simp
  moreover have "(y - 1600) mod 400 = y mod 400"
    using mod_mult_self2 [of y 400 "- 4"] by simp
  ultimately show ?thesis using div_step [of 400 "y - 1601"] by (simp only: )
qed

lemma DayFromYear_next: "DayFromYear (y + 1) = DayFromYear y + DaysInYear y"
proof -
  define p where "p = (y - 1969) div 4"
  define q where "q = (y - 1901) div 100"
  define r where "r = (y - 1601) div 400"
  define p' where "p' = (y - 1968) div 4"
  define q' where "q' = (y - 1900) div 100"
  define r' where "r' = (y - 1600) div 400"
  have d1: "y mod 400 = 0 \<Longrightarrow> y mod 100 = 0"
    using dvd_trans [of 100 400 y] by (simp add: mod_eq_0_iff_dvd)
  have d2: "y mod 100 = 0 \<Longrightarrow> y mod 4 = 0"
    using dvd_trans [of 4 100 y] by (simp add: mod_eq_0_iff_dvd)
  have e: "DayFromYear (y + 1) = 365 * (y - 1969) + p' - q' + r'"
    "DayFromYear y = 365 * (y - 1970) + p - q + r"
    by (simp_all add: DayFromYear_def p'_def q'_def r'_def p_def q_def r_def)
  have a: "p' - p = (if y mod 4 = 0 then 1 else 0)"
    "q' - q = (if y mod 100 = 0 then 1 else 0)"
    "r' - r = (if y mod 400 = 0 then 1 else 0)"
    unfolding p'_def q'_def r'_def p_def q_def r_def
    by (rule leap_step_4 leap_step_100 leap_step_400)+
  show ?thesis
  proof (cases "y mod 4 = 0")
    case False
    with d1 d2 have "y mod 100 \<noteq> 0" "y mod 400 \<noteq> 0" by auto
    with False a have "p' = p" "q' = q" "r' = r" by simp_all
    with False show ?thesis unfolding e DaysInYear_def by simp
  next
    case 4: True
    show ?thesis
    proof (cases "y mod 100 = 0")
      case False
      with d1 have "y mod 400 \<noteq> 0" by auto
      with False 4 a have "p' = p + 1" "q' = q" "r' = r" by simp_all
      with False 4 show ?thesis unfolding e DaysInYear_def by simp
    next
      case 100: True
      show ?thesis
      proof (cases "y mod 400 = 0")
        case False
        with 100 4 a have "p' = p + 1" "q' = q + 1" "r' = r" by simp_all
        with False 100 4 show ?thesis unfolding e DaysInYear_def by simp
      next
        case True
        with 100 4 a have "p' = p + 1" "q' = q + 1" "r' = r + 1" by simp_all
        with True 100 4 show ?thesis unfolding e DaysInYear_def by simp
      qed
    qed
  qed
qed

lemma DaysInYear_pos: "365 \<le> DaysInYear y \<and> DaysInYear y \<le> 366"
  by (simp add: DaysInYear_def)

lemma DayFromYear_mono:
  assumes "y \<le> y'"
  shows "DayFromYear y \<le> DayFromYear y'"
  using assms
proof (induction y' rule: int_ge_induct)
  case base
  show ?case by simp
next
  case (step i)
  then show ?case using DayFromYear_next [of i] DaysInYear_pos [of i] by linarith
qed

lemma YearFromTime_unique:
  assumes "DayFromYear y \<le> Day t" "Day t < DayFromYear (y + 1)"
  shows "YearFromTime t = y"
proof (rule ccontr)
  assume n: "YearFromTime t \<noteq> y"
  note c = YearFromTime_correct [of t]
  show False
  proof (cases "YearFromTime t < y")
    case True
    then have "DayFromYear (YearFromTime t + 1) \<le> DayFromYear y"
      by (intro DayFromYear_mono) simp
    with c assms show False by linarith
  next
    case False
    with n have "DayFromYear (y + 1) \<le> DayFromYear (YearFromTime t)"
      by (intro DayFromYear_mono) simp
    with c assms show False by linarith
  qed
qed

lemma month_cases:
  assumes "0 \<le> m" "m \<le> (11::int)"
  shows "m = 0 \<or> m = 1 \<or> m = 2 \<or> m = 3 \<or> m = 4 \<or> m = 5 \<or> m = 6 \<or> m = 7
    \<or> m = 8 \<or> m = 9 \<or> m = 10 \<or> m = 11"
  using assms by presburger

lemma day_fields:
  assumes d: "Day t = DayFromYear y + month_start m lp + k"
    and lp: "lp = (if DaysInYear y = 366 then 1 else 0)"
    and m: "0 \<le> m" "m \<le> 11"
    and k: "0 \<le> k" "month_start m lp + k < (if m = 11 then 365 + lp else month_start (m + 1) lp)"
  shows "YearFromTime t = y" "MonthFromTime t = m" "DateFromTime t = k + 1"
proof -
  have l01: "lp = 0 \<or> lp = 1" using lp by simp
  have n: "DaysInYear y = 365 + lp" using lp DaysInYear_pos [of y] by (simp add: DaysInYear_def)
  note mc = month_cases [OF m]
  have lo: "0 \<le> month_start m lp" using l01 by (elim disjE) (simp_all add: month_start_def)
  have hi: "month_start m lp + k < 365 + lp"
    using k(2) l01 mc by (elim disjE) (simp_all add: month_start_def)
  show y: "YearFromTime t = y"
  proof (rule YearFromTime_unique)
    show "DayFromYear y \<le> Day t" using d lo k(1) by simp
    show "Day t < DayFromYear (y + 1)" unfolding DayFromYear_next n using d hi by simp
  qed
  have w: "DayWithinYear t = month_start m lp + k" by (simp add: DayWithinYear_def y d)
  have i: "InLeapYear t = lp" by (simp add: InLeapYear_def y lp)
  show mo: "MonthFromTime t = m"
    unfolding MonthFromTime_def w i Let_def
    using mc k l01 by (elim disjE) (simp_all add: month_start_def)
  show "DateFromTime t = k + 1"
    by (simp add: DateFromTime_def w i mo)
qed

lemma month_mod: 
  "0 \<le> m mod (12::int) \<and> m mod 12 \<le> 11"
  using pos_mod_bound [of 12 m] by simp

lemma first_of_month_fields:
  "YearFromTime (MakeDay y m 1 * msPerDay) = y + m div 12
   \<and> MonthFromTime (MakeDay y m 1 * msPerDay) = m mod 12
   \<and> DateFromTime (MakeDay y m 1 * msPerDay) = 1
   \<and> TimeWithinDay (MakeDay y m 1 * msPerDay) = 0"
proof -
  define lp :: int where "lp = (if DaysInYear (y + m div 12) = 366 then 1 else 0)"
  have l01: "lp = 0 \<or> lp = 1" by (simp add: lp_def)
  note mm = month_mod [of m]
  note mc = month_cases [OF mm [THEN conjunct1] mm [THEN conjunct2]]
  have d: "Day (MakeDay y m 1 * msPerDay) = DayFromYear (y + m div 12) + month_start (m mod 12) lp + 0"
    by (simp add: MakeDay_def Let_def lp_def)
  have k: "month_start (m mod 12) lp + 0
      < (if m mod 12 = 11 then 365 + lp else month_start (m mod 12 + 1) lp)"
    using mc l01 by (elim disjE) (simp_all add: month_start_def)
  note f = day_fields [OF d lp_def mm [THEN conjunct1] mm [THEN conjunct2] order_refl k]
  show ?thesis using f by simp
qed

lemma Day_before_midnight: "Day (d * msPerDay - 1) = d - 1"
proof -
  have "d * msPerDay - 1 = msPerDay * (d - 1) + (msPerDay - 1)" by (simp add: algebra_simps)
  then show ?thesis unfolding Day_def
    by (rule int_div_pos_eq) (simp_all add: msPerDay_def)
qed

lemma TimeWithinDay_before_midnight: "TimeWithinDay (d * msPerDay - 1) = msPerDay - 1"
proof -
  have "Day (d * msPerDay - 1) * msPerDay + TimeWithinDay (d * msPerDay - 1) = d * msPerDay - 1"
    by (rule Day_split)
  then show ?thesis unfolding Day_before_midnight by (simp add: algebra_simps)
qed

lemma last_of_month_fields:
  assumes "0 \<le> m" "m \<le> 11"
  shows "YearFromTime (MakeDay y m 1 * msPerDay - 1) = y + (m - 1) div 12
   \<and> MonthFromTime (MakeDay y m 1 * msPerDay - 1) = (m - 1) mod 12"
proof (cases "m = 0")
  case True
  define lp :: int where "lp = (if DaysInYear (y - 1) = 366 then 1 else 0)"
  have n: "DaysInYear (y - 1) = 365 + lp" using DaysInYear_pos [of "y - 1"] by (simp add: lp_def DaysInYear_def)
  have "DayFromYear y = DayFromYear (y - 1) + DaysInYear (y - 1)"
    using DayFromYear_next [of "y - 1"] by simp
  then have d: "Day (MakeDay y m 1 * msPerDay - 1) = DayFromYear (y - 1) + month_start 11 lp + 30"
    unfolding Day_before_midnight n by (simp add: MakeDay_def True month_start_def)
  have k: "month_start 11 lp + 30 < (if (11::int) = 11 then 365 + lp else month_start (11 + 1) lp)"
    by (simp add: month_start_def)
  have "YearFromTime (MakeDay y m 1 * msPerDay - 1) = y - 1"
    "MonthFromTime (MakeDay y m 1 * msPerDay - 1) = 11"
    by (rule day_fields [OF d lp_def _ _ _ k]; simp)+
  then show ?thesis by (simp add: True)
next
  case False
  with assms have m1: "0 \<le> m - 1" "m - 1 \<le> 11" by simp_all
  from False assms have mc: "m = 1 \<or> m = 2 \<or> m = 3 \<or> m = 4 \<or> m = 5 \<or> m = 6 \<or> m = 7
    \<or> m = 8 \<or> m = 9 \<or> m = 10 \<or> m = 11" using month_cases [OF assms] by simp
  define lp :: int where "lp = (if DaysInYear y = 366 then 1 else 0)"
  have l01: "lp = 0 \<or> lp = 1" by (simp add: lp_def)
  define k where "k = month_start m lp - 1 - month_start (m - 1) lp"
  have md: "m div 12 = 0" "m mod 12 = m" "(m - 1) div 12 = 0" "(m - 1) mod 12 = m - 1"
    using assms m1 by simp_all
  have d: "Day (MakeDay y m 1 * msPerDay - 1) = DayFromYear y + month_start (m - 1) lp + k"
    unfolding Day_before_midnight by (simp add: MakeDay_def md lp_def k_def)
  have k0: "0 \<le> k" unfolding k_def using mc l01 by (elim disjE) (simp_all add: month_start_def)
  have k1: "month_start (m - 1) lp + k
      < (if m - 1 = 11 then 365 + lp else month_start (m - 1 + 1) lp)"
    unfolding k_def using mc by (elim disjE) (simp_all add: month_start_def)
  note f = day_fields [OF d lp_def m1 k0 k1]
  show ?thesis using f(1,2) by (simp add: md)
qed

lemma previous_month:
  assumes "0 \<le> m" "m \<le> (11::int)"
  shows "(m - 1) mod 12 = (if m = 0 then 11 else m - 1)"
    and "(m - 1) div 12 = (if m = 0 then - 1 else 0)"
  using assms by auto

lemma month_begin_fields:
  "MakeDay (getFullYear z now) (getMonth z now) 1 * msPerDay
     = local_midnight z now - (getDate z now - 1) * msPerDay"
  "YearFromTime (local_midnight z now - (getDate z now - 1) * msPerDay) = getFullYear z now"
  "MonthFromTime (local_midnight z now - (getDate z now - 1) * msPerDay) = getMonth z now"
  "DateFromTime (local_midnight z now - (getDate z now - 1) * msPerDay) = 1"
  "TimeWithinDay (local_midnight z now - (getDate z now - 1) * msPerDay) = 0"
  "YearFromTime (local_midnight z now - (getDate z now - 1) * msPerDay - 1)
     = (if getMonth z now = 0 then getFullYear z now - 1 else getFullYear z now)"
  "MonthFromTime (local_midnight z now - (getDate z now - 1) * msPerDay - 1)
     = (if getMonth z now = 0 then 11 else getMonth z now - 1)"
  "YearFromTime (MakeDay (getFullYear z now) (getMonth z now - 1) 1 * msPerDay)
     = (if getMonth z now = 0 then getFullYear z now - 1 else getFullYear z now)"
  "MonthFromTime (MakeDay (getFullYear z now) (getMonth z now - 1) 1 * msPerDay)
     = (if getMonth z now = 0 then 11 else getMonth z now - 1)"
  "DateFromTime (MakeDay (getFullYear z now) (getMonth z now - 1) 1 * msPerDay) = 1"
  "TimeWithinDay (MakeDay (getFullYear z now) (getMonth z now - 1) 1 * msPerDay) = 0"
proof -
  let ?Y = "getFullYear z now" and ?M = "getMonth z now"
  have r: "0 \<le> ?M" "?M \<le> 11"
    using MonthFromTime_range [of "LocalTime z now"] by (simp_all add: getMonth_def)
  then have md: "?M div 12 = 0" "?M mod 12 = ?M" by simp_all
  note pm = previous_month [OF r]
  have "MakeDay ?Y ?M 1 = Day (LocalTime z now) - (getDate z now - 1)"
    using MakeDay_fields [of "LocalTime z now" "1 - DateFromTime (LocalTime z now)"]
    by (simp add: getFullYear_def getMonth_def getDate_def)
  then show e: "MakeDay ?Y ?M 1 * msPerDay = local_midnight z now - (getDate z now - 1) * msPerDay"
    by (simp only: local_midnight_def left_diff_distrib)
  note f = first_of_month_fields [of ?Y ?M, unfolded md e]
  show "YearFromTime (local_midnight z now - (getDate z now - 1) * msPerDay) = ?Y"
    "MonthFromTime (local_midnight z now - (getDate z now - 1) * msPerDay) = ?M"
    "DateFromTime (local_midnight z now - (getDate z now - 1) * msPerDay) = 1"
    "TimeWithinDay (local_midnight z now - (getDate z now - 1) * msPerDay) = 0"
    using f by simp_all
  note l = last_of_month_fields [OF r, of ?Y, unfolded e pm]
  show "YearFromTime (local_midnight z now - (getDate z now - 1) * msPerDay - 1)
     = (if ?M = 0 then ?Y - 1 else ?Y)"
    "MonthFromTime (local_midnight z now - (getDate z now - 1) * msPerDay - 1)
     = (if ?M = 0 then 11 else ?M - 1)"
    using l by simp_all
  note p = first_of_month_fields [of ?Y "?M - 1", unfolded pm]
  show "YearFromTime (MakeDay ?Y (?M - 1) 1 * msPerDay) = (if ?M = 0 then ?Y - 1 else ?Y)"
    "MonthFromTime (MakeDay ?Y (?M - 1) 1 * msPerDay) = (if ?M = 0 then 11 else ?M - 1)"
    "DateFromTime (MakeDay ?Y (?M - 1) 1 * msPerDay) = 1"
    "TimeWithinDay (MakeDay ?Y (?M - 1) 1 * msPerDay) = 0"
    using p by simp_all
qed

text \<open>The \<open>Date\<close> methods and the date ranges in terms of local time values.\<close>

lemma setDate_shift: "setDate z t (getDate z t + k) = UTC z (LocalTime z t + k * msPerDay)"
proof -
  let ?lt = "LocalTime z t"
  have "MakeDate (MakeDay (YearFromTime ?lt) (MonthFromTime ?lt) (DateFromTime ?lt + k))
          (TimeWithinDay ?lt) = ?lt + k * msPerDay"
    unfolding MakeDay_fields MakeDate_def using Day_split [of ?lt] by (simp add: algebra_simps)
  then show ?thesis
    by (simp add: setDate_def getDate_def Let_def)
qed

lemma setDate_minus: "setDate z t (getDate z t - k) = UTC z (LocalTime z t - k * msPerDay)"
  using setDate_shift [of z t "- k"] by simp

lemma setHours_end_of_day:
  "setHours z t 23 59 59 999 = UTC z (Day (LocalTime z t) * msPerDay + (msPerDay - 1))"
  by (simp add: setHours_def MakeDate_def MakeTime_def msPerDay_def)

lemma new_Date_midnight:
  "new_Date z y m d 0 0 0 0
     = UTC z (MakeDay (if 0 \<le> y \<and> y \<le> 99 then 1900 + y else y) m d * msPerDay)"
  by (simp add: new_Date_def Let_def MakeDate_def MakeTime_def)

lemma new_Date_last_ms:
  "new_Date z y m 0 23 59 59 999
     = UTC z (MakeDay (if 0 \<le> y \<and> y \<le> 99 then 1900 + y else y) m 1 * msPerDay - 1)"
proof -
  define yr where "yr = (if 0 \<le> y \<and> y \<le> 99 then 1900 + y else y)"
  have "MakeDay yr m 0 * msPerDay + 86399999 = MakeDay yr m 1 * msPerDay - 1"
    using MakeDay_shift [of yr m 0 1] by (simp add: msPerDay_def)
  moreover have "new_Date z y m 0 23 59 59 999 = UTC z (MakeDay yr m 0 * msPerDay + 86399999)"
    by (simp add: new_Date_def Let_def MakeDate_def MakeTime_def yr_def [symmetric])
  ultimately show ?thesis unfolding yr_def by (simp only:)
qed

lemma today_exact:
  assumes "\<not> (0 \<le> getFullYear z now \<and> getFullYear z now \<le> 99)"
  shows "new_Date z (getFullYear z now) (getMonth z now) (getDate z now) 0 0 0 0
           = UTC z (local_midnight z now)"
  using assms MakeDay_fields [of "LocalTime z now" 0]
  by (auto simp: new_Date_def Let_def MakeDate_def MakeTime_def getFullYear_def
      getMonth_def getDate_def local_midnight_def)

lemma local_midnight_fields:
  "YearFromTime (local_midnight z now) = getFullYear z now"
  "MonthFromTime (local_midnight z now) = getMonth z now"
  "DateFromTime (local_midnight z now) = getDate z now"
  "WeekDay (local_midnight z now) = getDay z now"
  "Day (local_midnight z now) = Day (LocalTime z now)"
proof -
  have d: "Day (local_midnight z now) = Day (LocalTime z now)"
    by (simp add: local_midnight_def)
  note f = same_day_fields [OF d]
  show "YearFromTime (local_midnight z now) = getFullYear z now"
    "MonthFromTime (local_midnight z now) = getMonth z now"
    "DateFromTime (local_midnight z now) = getDate z now"
    "WeekDay (local_midnight z now) = getDay z now"
    "Day (local_midnight z now) = Day (LocalTime z now)"
    by (simp_all add: f d getFullYear_def getMonth_def getDate_def getDay_def)
qed

lemma local_midnight_bounds:
  "local_midnight z now \<le> LocalTime z now \<and> LocalTime z now < local_midnight z now + msPerDay"
proof -
  have "0 \<le> TimeWithinDay (LocalTime z now)" "TimeWithinDay (LocalTime z now) < msPerDay"
    by (simp_all add: TimeWithinDay_def msPerDay_def)
  with Day_split [of "LocalTime z now"] show ?thesis
    by (simp add: local_midnight_def)
qed

lemma range_today:
  "getDateRange z now ''today''
     = \<lparr>start_date = new_Date z (getFullYear z now) (getMonth z now) (getDate z now) 0 0 0 0,
        end_date = now\<rparr>"
  by (simp add: getDateRange_def Let_def)

lemma range_ends:
  "end_date (getDateRange z now ''today'') = now"
  "end_date (getDateRange z now ''this_week'') = now"
  "end_date (getDateRange z now ''this_month'') = now"
  by (simp_all add: getDateRange_def Let_def)

lemma range_starts:
  assumes yr: "\<not> (0 \<le> getFullYear z now \<and> getFullYear z now \<le> 99)"
    and rb: "reads_back z (local_midnight z now)"
  shows "start_date (getDateRange z now ''yesterday'') = UTC z (local_midnight z now - msPerDay)"
    and "start_date (getDateRange z now ''this_week'')
           = UTC z (local_midnight z now - getDay z now * msPerDay)"
    and "start_date (getDateRange z now ''last_week'')
           = UTC z (local_midnight z now - (getDay z now + 7) * msPerDay)"
    and "start_date (getDateRange z now ''this_month'')
           = UTC z (local_midnight z now - (getDate z now - 1) * msPerDay)"
    and "start_date (getDateRange z now ''last_month'')
           = UTC z (MakeDay (getFullYear z now) (getMonth z now - 1) 1 * msPerDay)"
    and "end_date (getDateRange z now ''last_month'')
           = UTC z (local_midnight z now - (getDate z now - 1) * msPerDay - 1)"
    and "MakeDay (getFullYear z now) (getMonth z now) 1 * msPerDay
           = local_midnight z now - (getDate z now - 1) * msPerDay"
proof -
  let ?T = "new_Date z (getFullYear z now) (getMonth z now) (getDate z now) 0 0 0 0"
  let ?L = "local_midnight z now"
  have t: "?T = UTC z ?L" by (rule today_exact [OF yr])
  have l: "LocalTime z (UTC z ?L) = ?L" using rb by (simp add: reads_back_def)
  note lf = local_midnight_fields [of z now]
  have g: "getFullYear z (UTC z ?L) = getFullYear z now" "getMonth z (UTC z ?L) = getMonth z now"
    "getDate z (UTC z ?L) = getDate z now" "getDay z (UTC z ?L) = getDay z now"
    unfolding getFullYear_def [of z "UTC z ?L"] getMonth_def [of z "UTC z ?L"]
      getDate_def [of z "UTC z ?L"] getDay_def [of z "UTC z ?L"] l
    by (rule lf)+
  have sd: "\<And>k. setDate z (UTC z ?L) (getDate z now - k) = UTC z (?L - k * msPerDay)"
    using setDate_minus [of z "UTC z ?L"] unfolding g l .
  show "start_date (getDateRange z now ''yesterday'') = UTC z (?L - msPerDay)"
    using sd [of 1] by (simp add: getDateRange_def Let_def t g)
  show "start_date (getDateRange z now ''this_week'') = UTC z (?L - getDay z now * msPerDay)"
    using sd [of "getDay z now"] by (simp add: getDateRange_def Let_def t g)
  show "start_date (getDateRange z now ''last_week'')
           = UTC z (?L - (getDay z now + 7) * msPerDay)"
    using sd [of "getDay z now + 7"] by (simp add: getDateRange_def Let_def t g algebra_simps)
  have m: "MakeDay (getFullYear z now) (getMonth z now) 1 = Day (LocalTime z now) - (getDate z now - 1)"
    using MakeDay_fields [of "LocalTime z now" "1 - DateFromTime (LocalTime z now)"]
    by (simp add: getFullYear_def getMonth_def getDate_def)
  show m': "MakeDay (getFullYear z now) (getMonth z now) 1 * msPerDay
           = ?L - (getDate z now - 1) * msPerDay"
    unfolding m local_midnight_def by (simp add: algebra_simps)
  have y: "(if 0 \<le> getFullYear z now \<and> getFullYear z now \<le> 99 then 1900 + getFullYear z now
            else getFullYear z now) = getFullYear z now"
    using yr by simp
  have a: "start_date (getDateRange z now ''this_month'')
      = new_Date z (getFullYear z ?T) (getMonth z ?T) 1 0 0 0 0"
    by (simp add: getDateRange_def Let_def)
  show "start_date (getDateRange z now ''this_month'')
           = UTC z (?L - (getDate z now - 1) * msPerDay)"
    using a [unfolded t g] unfolding new_Date_midnight y m' .
  have b: "start_date (getDateRange z now ''last_month'')
      = new_Date z (getFullYear z ?T) (getMonth z ?T - 1) 1 0 0 0 0"
    by (simp add: getDateRange_def Let_def)
  show "start_date (getDateRange z now ''last_month'')
           = UTC z (MakeDay (getFullYear z now) (getMonth z now - 1) 1 * msPerDay)"
    using b [unfolded t g] unfolding new_Date_midnight y .
  have c: "end_date (getDateRange z now ''last_month'')
      = new_Date z (getFullYear z ?T) (getMonth z ?T) 0 23 59 59 999"
    by (simp add: getDateRange_def Let_def)
  show "end_date (getDateRange z now ''last_month'')
           = UTC z (?L - (getDate z now - 1) * msPerDay - 1)"
    using c [unfolded t g] unfolding new_Date_last_ms y m' .
qed

lemma Day_shift: "Day (t + k * msPerDay) = Day t + k"
  by (simp add: Day_def msPerDay_def)

lemma end_of_day_local:
  "Day (local_midnight z now - k * msPerDay) * msPerDay + (msPerDay - 1)
     = local_midnight z now - (k - 1) * msPerDay - 1"
proof -
  have "Day (local_midnight z now + (- k) * msPerDay) = Day (local_midnight z now) + (- k)"
    by (rule Day_shift)
  then have h: "Day (local_midnight z now - k * msPerDay) = Day (LocalTime z now) - k"
    by (simp add: local_midnight_fields)
  show ?thesis unfolding h by (simp add: local_midnight_def algebra_simps)
qed

lemma range_yesterday_end:
  assumes yr: "\<not> (0 \<le> getFullYear z now \<and> getFullYear z now \<le> 99)"
    and rb: "reads_back z (local_midnight z now)"
    and rb1: "reads_back z (local_midnight z now - msPerDay)"
  shows "end_date (getDateRange z now ''yesterday'') = UTC z (local_midnight z now - 1)"
proof -
  let ?L = "local_midnight z now"
  have s: "start_date (getDateRange z now ''yesterday'') = UTC z (?L - msPerDay)"
    by (rule range_starts(1) [OF yr rb])
  have l: "LocalTime z (UTC z (?L - msPerDay)) = ?L - msPerDay"
    using rb1 by (simp add: reads_back_def)
  have "end_date (getDateRange z now ''yesterday'')
      = setHours z (start_date (getDateRange z now ''yesterday'')) 23 59 59 999"
    by (simp add: getDateRange_def Let_def)
  also have "\<dots> = UTC z (Day (?L - 1 * msPerDay) * msPerDay + (msPerDay - 1))"
    unfolding s setHours_end_of_day l by simp
  also have "\<dots> = UTC z (?L - 1)"
    unfolding end_of_day_local by simp
  finally show ?thesis .
qed

lemma range_last_week_end:
  assumes yr: "\<not> (0 \<le> getFullYear z now \<and> getFullYear z now \<le> 99)"
    and rb: "reads_back z (local_midnight z now)"
    and rb1: "reads_back z (local_midnight z now - (getDay z now + 7) * msPerDay)"
    and rb2: "reads_back z (local_midnight z now - (getDay z now + 1) * msPerDay)"
  shows "end_date (getDateRange z now ''last_week'')
           = UTC z (local_midnight z now - getDay z now * msPerDay - 1)"
proof -
  let ?L = "local_midnight z now"
  let ?w = "getDay z now"
  let ?S = "start_date (getDateRange z now ''last_week'')"
  have s: "?S = UTC z (?L - (?w + 7) * msPerDay)"
    by (rule range_starts(3) [OF yr rb])
  have l1: "LocalTime z (UTC z (?L - (?w + 7) * msPerDay)) = ?L - (?w + 7) * msPerDay"
    using rb1 by (simp add: reads_back_def)
  have l2: "LocalTime z (UTC z (?L - (?w + 1) * msPerDay)) = ?L - (?w + 1) * msPerDay"
    using rb2 by (simp add: reads_back_def)
  have e0: "setDate z ?S (getDate z ?S + 6) = UTC z (?L - (?w + 1) * msPerDay)"
    unfolding setDate_shift s l1 by (simp add: algebra_simps)
  have "end_date (getDateRange z now ''last_week'')
      = setHours z (setDate z ?S (getDate z ?S + 6)) 23 59 59 999"
    by (simp add: getDateRange_def Let_def)
  also have "\<dots> = UTC z (Day (?L - (?w + 1) * msPerDay) * msPerDay + (msPerDay - 1))"
    unfolding e0 setHours_end_of_day l2 ..
  also have "\<dots> = UTC z (?L - ?w * msPerDay - 1)"
    unfolding end_of_day_local by simp
  finally show ?thesis .
qed

lemma week_start_sunday:
  "0 \<le> getDay z now \<and> getDay z now \<le> 6
   \<and> WeekDay (local_midnight z now - getDay z now * msPerDay) = 0
   \<and> TimeWithinDay (local_midnight z now - getDay z now * msPerDay) = 0"
proof -
  define d where "d = Day (LocalTime z now)"
  have w: "getDay z now = (d + 4) mod 7" by (simp add: getDay_def WeekDay_def d_def)
  have e: "local_midnight z now - getDay z now * msPerDay = (d - (d + 4) mod 7) * msPerDay"
    by (simp add: local_midnight_def w d_def algebra_simps)
  show ?thesis unfolding e by (simp add: WeekDay_week_start) (simp add: w)
qed

lemma fold_plus_acc:
  "fold (\<lambda>s sum. sum + f s) xs (a::real) = a + sum_list (map f xs)"
  by (induction xs arbitrary: a) (simp_all add: algebra_simps)

section \<open>Lemmas on the inventory filter and the image upload\<close>

lemma insert_by_insort:
  "insert_by (\<lambda>a b. created_at b - created_at a) x xs = insort_key (\<lambda>p. - created_at p) x xs"
  by (induction xs) simp_all

lemma array_sort_sort_key:
  "array_sort (\<lambda>a b. created_at b - created_at a) xs = sort_key (\<lambda>p. - created_at p) xs"
  by (induction xs) (simp_all add: array_sort_def sort_key_def insert_by_insort)

lemma ceil_fifth: "nat \<lceil>real n / 5\<rceil> = (n + 4) div 5"
proof -
  have "\<lceil>real n / 5\<rceil> = \<lceil>real_of_int (int n) / real_of_int 5\<rceil>" by simp
  also have "\<dots> = - (- int n div 5)" by (rule ceiling_divide_eq_div)
  also have "\<dots> = (int n + 4) div 5" by presburger
  finally show ?thesis by (simp add: nat_div_distrib)
qed

lemma filter_effect_new:
  "allProducts \<noteq> [] \<Longrightarrow>
   filter_effect FilterNew allProducts shown
     = take (max ((length allProducts + 4) div 5) 5) (sort_key (\<lambda>p. - created_at p) allProducts)"
  by (simp add: filter_effect_def Let_def array_sort_sort_key ceil_fifth)

lemma sorted_desc:
  "sorted_wrt (\<lambda>a b. created_at b \<le> created_at a) (sort_key (\<lambda>p. - created_at p) xs)"
proof -
  have "sorted (map (\<lambda>p. - created_at p) (sort_key (\<lambda>p. - created_at p) xs))"
    by (rule sorted_sort_key)
  then show ?thesis by (simp add: sorted_map)
qed

lemma retry_exhausted:
  assumes "attempt_upload userId file reply = Inl err"
  shows "uploadWithRetry userId file reply 0 =
     (if str_includes (err_message err) ''permission'' \<or> err_code err = Some ''42501''
           \<or> str_includes (err_message err) ''not authorized''
      then Inl (JsError (''Permission denied: '' @ err_message err
                               @ ''. Please check storage bucket policies.'') None)
      else Inl err)"
proof -
  have "uploadWithRetry userId file reply 0 = uploadWithRetry userId file reply 1"
    by (subst uploadWithRetry.simps) (simp add: assms maxRetries_def numeral_2_eq_2)
  also have "\<dots> = uploadWithRetry userId file reply 2"
    by (subst uploadWithRetry.simps) (simp add: assms maxRetries_def numeral_2_eq_2)
  also have "\<dots> = (if str_includes (err_message err) ''permission'' \<or> err_code err = Some ''42501''
           \<or> str_includes (err_message err) ''not authorized''
      then Inl (JsError (''Permission denied: '' @ err_message err
                               @ ''. Please check storage bucket policies.'') None)
      else Inl err)"
    by (subst uploadWithRetry.simps) (simp add: assms maxRetries_def numeral_2_eq_2)
  finally show ?thesis .
qed

lemma retry_returned:
  assumes "attempt_upload userId file reply = Inr url"
  shows "uploadWithRetry userId file reply 0 = Inr url"
  by (subst uploadWithRetry.simps) (simp add: assms)

lemma no_user_url:
  "uploadProductImage [] file reply
     = ''https://placehold.co/300x300/e2e8f0/64748b?text=Upload+Failed:+User%20ID%20is%20required%20for%20image%20upload''"
proof -
  have a: "attempt_upload [] file reply = Inl (JsError ''User ID is required for image upload'' None)"
    by (simp add: attempt_upload_def)
  have p: "\<not> str_includes ''User ID is required for image upload'' ''permission''"
    "\<not> str_includes ''User ID is required for image upload'' ''not authorized''"
    by code_simp+
  have e: "take 50 (encodeURIComponent ''User ID is required for image upload'')
      = ''User%20ID%20is%20required%20for%20image%20upload''"
    by code_simp
  show ?thesis
    unfolding uploadProductImage_def retry_exhausted [OF a]
    using p by (simp add: e)
qed

lemma too_big_url:
  assumes "userId \<noteq> []" "file_size file > 5242880"
  shows "uploadProductImage userId file reply
     = ''https://placehold.co/300x300/e2e8f0/64748b?text=Upload+Failed:+File%20size%20exceeds%205MB%20limit''"
proof -
  have a: "attempt_upload userId file reply = Inl (JsError ''File size exceeds 5MB limit'' None)"
    using assms by (simp add: attempt_upload_def)
  have p: "\<not> str_includes ''File size exceeds 5MB limit'' ''permission''"
    "\<not> str_includes ''File size exceeds 5MB limit'' ''not authorized''"
    by code_simp+
  have e: "take 50 (encodeURIComponent ''File size exceeds 5MB limit'')
      = ''File%20size%20exceeds%205MB%20limit''"
    by code_simp
  show ?thesis
    unfolding uploadProductImage_def retry_exhausted [OF a]
    using p by (simp add: e)
qed

lemma storage_failure_url:
  assumes "userId \<noteq> []" "\<not> file_size file > 5242880"
    and "reply = UploadError \<or> reply = UploadThrows \<or> reply = Uploaded None \<or> reply = Uploaded (Some [])"
  shows "uploadProductImage userId file reply
     = ''https://placehold.co/300x300/e2e8f0/64748b?text=Product+Image''"
proof -
  have a: "attempt_upload userId file reply = Inr (getPlaceholderImageUrl (file_name file))"
    using assms by (auto simp: attempt_upload_def)
  show ?thesis
    unfolding uploadProductImage_def retry_returned [OF a]
    by (simp add: getPlaceholderImageUrl_def)
qed

lemma placeholder_not_flagged:
  "\<not> str_includes ''https://placehold.co/300x300/e2e8f0/64748b?text=Product+Image'' ''placeholder''"
  "\<not> str_includes ''https://placehold.co/300x300/e2e8f0/64748b?text=Upload+Failed:+File%20size%20exceeds%205MB%20limit'' ''placeholder''"
  "\<not> str_includes ''https://placehold.co/300x300/e2e8f0/64748b?text=Upload+Failed:+User%20ID%20is%20required%20for%20image%20upload'' ''placeholder''"
  by code_simp+

section \<open>Lemmas on double arithmetic\<close>









lemma exps:
  "exponent_of (3602879701896397 / 36028797018963968) = - 4"
  "exponent_of (3602879701896397 / 18014398509481984) = - 3"
  "exponent_of (5404319552844595 / 18014398509481984) = - 2"
  "exponent_of (10808639105689191 / 36028797018963968) = - 2"
  "exponent_of (10808639105689191 / 18014398509481984) = - 1"
  "exponent_of (21617278211378381 / 36028797018963968) = - 1"
  "exponent_of (1 / 2) = - 1"
  "exponent_of (1 / 10) = - 4"
  "exponent_of (1 / 5) = - 3"
  "exponent_of (3 / 10) = - 2"
  by code_simp+

section \<open>Checkout: the sale and the catalog cache\<close>



section \<open>Cart model: setting a quantity\<close>

text \<open>
  Claim C2.  Let product \<open>P\<close> be the entry of the catalog cache for \<open>pid\<close> and let the
  cart hold a line \<open>l\<close> for it; stock is a non-negative integer, as in the data
  model.  Then \<open>handleUpdateQuantity\<close> with a quantity \<open>q \<le> 0\<close> removes the line of
  \<open>pid\<close> altogether; with \<open>q > stock P\<close> it leaves the cart as it was and opens the
  error notice; and with \<open>0 < q \<le> stock P\<close> the line of \<open>pid\<close> becomes \<open>l\<close> with quantity
  \<open>q\<close> and the price and cost snapshots of \<open>l\<close>, while every other line, the order
  of the lines and the notice stay as they were.
\<close>

theorem setQuantity_spec:
  assumes cache: "find (\<lambda>p. id_p p = Some pid) (products st) = Some P"
      and line: "find (\<lambda>item. product_id item = pid) (cart st) = Some l"
      and stock: "0 \<le> stock P"
  shows "(q \<le> 0 \<longrightarrow>
            cart (handleUpdateQuantity st pid q) = filter (\<lambda>item. product_id item \<noteq> pid) (cart st)
          \<and> pid \<notin> set (map product_id (cart (handleUpdateQuantity st pid q))))
       \<and> (stock P < q \<longrightarrow>
            cart (handleUpdateQuantity st pid q) = cart st
          \<and> modalOpen (handleUpdateQuantity st pid q)
          \<and> modalContent (handleUpdateQuantity st pid q)
              = \<lparr>title = ''notification'', message = ''insufficient_stock'', mtype = Error\<rparr>)
       \<and> (0 < q \<and> q \<le> stock P \<longrightarrow>
            find (\<lambda>item. product_id item = pid) (cart (handleUpdateQuantity st pid q))
              = Some (l\<lparr>quantity := q\<rparr>)
          \<and> (\<forall>k. k \<noteq> pid \<longrightarrow>
                find (\<lambda>item. product_id item = k) (cart (handleUpdateQuantity st pid q))
                  = find (\<lambda>item. product_id item = k) (cart st))
          \<and> map product_id (cart (handleUpdateQuantity st pid q)) = map product_id (cart st)
          \<and> modalOpen (handleUpdateQuantity st pid q) = modalOpen st
          \<and> modalContent (handleUpdateQuantity st pid q) = modalContent st)"
proof (intro conjI impI)
  assume "q \<le> 0"
  then show "cart (handleUpdateQuantity st pid q) = filter (\<lambda>item. product_id item \<noteq> pid) (cart st)"
    by (simp add: handleUpdateQuantity_def)
  then show "pid \<notin> set (map product_id (cart (handleUpdateQuantity st pid q)))"
    by auto
next
  assume big: "stock P < q"
  with stock have "0 < q" by simp
  with big cache show "cart (handleUpdateQuantity st pid q) = cart st"
    "modalOpen (handleUpdateQuantity st pid q)"
    "modalContent (handleUpdateQuantity st pid q)
              = \<lparr>title = ''notification'', message = ''insufficient_stock'', mtype = Error\<rparr>"
    by (simp_all add: handleUpdateQuantity_def notify_def)
next
  assume ok: "0 < q \<and> q \<le> stock P"
  let ?upd = "\<lambda>item. if product_id item = pid then item\<lparr>quantity := q\<rparr> else item"
  from ok cache have st': "handleUpdateQuantity st pid q = st\<lparr>cart := map ?upd (cart st)\<rparr>"
    by (simp add: handleUpdateQuantity_def)
  show "find (\<lambda>item. product_id item = pid) (cart (handleUpdateQuantity st pid q))
              = Some (l\<lparr>quantity := q\<rparr>)"
    using line by (simp add: st' find_line_map [where f = "\<lambda>item. item\<lparr>quantity := q\<rparr>"])
  show "\<forall>k. k \<noteq> pid \<longrightarrow>
                find (\<lambda>item. product_id item = k) (cart (handleUpdateQuantity st pid q))
                  = find (\<lambda>item. product_id item = k) (cart st)"
    by (simp add: st' find_line_map [where f = "\<lambda>item. item\<lparr>quantity := q\<rparr>"])
  show "map product_id (cart (handleUpdateQuantity st pid q)) = map product_id (cart st)"
    by (simp add: st' ids_line_map [where f = "\<lambda>item. item\<lparr>quantity := q\<rparr>"])
  show "modalOpen (handleUpdateQuantity st pid q) = modalOpen st"
    "modalContent (handleUpdateQuantity st pid q) = modalContent st"
    by (simp_all add: st')
qed



theorem setQuantity_spec_witness:
  "cart (handleUpdateQuantity till 1 0) = []
   \<and> cart (handleUpdateQuantity till 1 6) = [tea_line]
   \<and> modalOpen (handleUpdateQuantity till 1 6)
   \<and> find (\<lambda>item. product_id item = 1) (cart (handleUpdateQuantity till 1 5))
       = Some \<lparr>product_id = 1, quantity = 5, price_at_sale = 10, cost_at_sale = 6\<rparr>"
proof -
  have c: "find (\<lambda>p. id_p p = Some 1) (products till) = Some tea"
    by (simp add: till_def tea_def)
  have l: "find (\<lambda>item. product_id item = 1) (cart till) = Some tea_line"
    by (simp add: till_def tea_line_def)
  have s: "0 \<le> stock tea" by (simp add: tea_def)
  have "cart (handleUpdateQuantity till 1 0) = []"
    using setQuantity_spec [OF c l s, of 0, THEN conjunct1]
    by (simp add: till_def tea_line_def)
  moreover have "cart (handleUpdateQuantity till 1 6) = [tea_line] \<and> modalOpen (handleUpdateQuantity till 1 6)"
    using setQuantity_spec [OF c l s, of 6, THEN conjunct2, THEN conjunct1]
    by (simp add: till_def tea_def)
  moreover have "find (\<lambda>item. product_id item = 1) (cart (handleUpdateQuantity till 1 5))
       = Some \<lparr>product_id = 1, quantity = 5, price_at_sale = 10, cost_at_sale = 6\<rparr>"
    using setQuantity_spec [OF c l s, of 5, THEN conjunct2, THEN conjunct2]
    by (simp add: tea_def tea_line_def)
  ultimately show ?thesis by simp
qed


section \<open>Cart model: adding a product\<close>

text \<open>
  Claim C3.  Let \<open>P\<close> be the entry of the catalog cache for \<open>pid\<close>.  If the cart has no
  line for \<open>pid\<close> and \<open>P\<close> has stock, \<open>handleAddToCart\<close> appends a line with quantity 1
  and the current selling and cost price of \<open>P\<close>.  If the cart has a line and one more
  is in stock, the quantity of that line grows by 1; the other lines, the order
  of the lines and the notice stay as they were.  If one more than the quantity
  in the cart exceeds the stock, the cart is unchanged and the notice
  \<open>max_stock_reached\<close> is opened.  Hence the product ids of the lines stay
  distinct, every session of cart edits that starts from the empty cart keeps
  the cart invariant (one line per product, quantities at least 1), and a
  product without stock is not added: the call changes nothing in a cart that
  satisfies the invariant, and no session from the empty cart ever holds a line
  for it.
\<close>

theorem addProduct_spec:
  assumes cache: "find (\<lambda>p. id_p p = Some pid) (products st) = Some P"
  shows "(find (\<lambda>item. product_id item = pid) (cart st) = None \<and> 1 \<le> stock P \<longrightarrow>
            handleAddToCart st pid =
              st\<lparr>cart := cart st @ [\<lparr>product_id = pid, quantity = 1,
                                      price_at_sale = selling_price P,
                                      cost_at_sale = cost_price P\<rparr>]\<rparr>)
       \<and> (\<forall>l. find (\<lambda>item. product_id item = pid) (cart st) = Some l
               \<and> quantity l + 1 \<le> stock P \<longrightarrow>
              find (\<lambda>item. product_id item = pid) (cart (handleAddToCart st pid))
                = Some (l\<lparr>quantity := quantity l + 1\<rparr>)
            \<and> (\<forall>k. k \<noteq> pid \<longrightarrow>
                  find (\<lambda>item. product_id item = k) (cart (handleAddToCart st pid))
                    = find (\<lambda>item. product_id item = k) (cart st))
            \<and> map product_id (cart (handleAddToCart st pid)) = map product_id (cart st)
            \<and> modalOpen (handleAddToCart st pid) = modalOpen st
            \<and> modalContent (handleAddToCart st pid) = modalContent st)
       \<and> (stock P < (case find (\<lambda>item. product_id item = pid) (cart st) of
                        Some l \<Rightarrow> quantity l | None \<Rightarrow> 0) + 1 \<longrightarrow>
              cart (handleAddToCart st pid) = cart st
            \<and> modalOpen (handleAddToCart st pid)
            \<and> modalContent (handleAddToCart st pid)
                = \<lparr>title = ''notification'', message = ''max_stock_reached'', mtype = Error\<rparr>)
       \<and> (distinct (map product_id (cart st)) \<longrightarrow>
              distinct (map product_id (cart (handleAddToCart st pid))))
       \<and> (cart st = [] \<longrightarrow> cart_ok (cart (session evs st)))
       \<and> (stock P \<le> 0 \<and> cart_ok (cart st) \<longrightarrow> cart (handleAddToCart st pid) = cart st)
       \<and> (stock P \<le> 0 \<and> cart st = [] \<longrightarrow>
              pid \<notin> set (map product_id (cart (session evs st))))"
proof (intro conjI allI impI)
  assume "find (\<lambda>item. product_id item = pid) (cart st) = None \<and> 1 \<le> stock P"
  with cache show "handleAddToCart st pid =
              st\<lparr>cart := cart st @ [\<lparr>product_id = pid, quantity = 1,
                                      price_at_sale = selling_price P,
                                      cost_at_sale = cost_price P\<rparr>]\<rparr>"
    by (simp add: handleAddToCart_def)
next
  fix l
  assume h: "find (\<lambda>item. product_id item = pid) (cart st) = Some l \<and> quantity l + 1 \<le> stock P"
  let ?inc = "\<lambda>item. if product_id item = pid then item\<lparr>quantity := quantity item + 1\<rparr> else item"
  from h cache have st': "handleAddToCart st pid = st\<lparr>cart := map ?inc (cart st)\<rparr>"
    by (simp add: handleAddToCart_def)
  show "find (\<lambda>item. product_id item = pid) (cart (handleAddToCart st pid))
                = Some (l\<lparr>quantity := quantity l + 1\<rparr>)"
    using h by (simp add: st' find_line_map [where f = "\<lambda>item. item\<lparr>quantity := quantity item + 1\<rparr>"])
  show "map product_id (cart (handleAddToCart st pid)) = map product_id (cart st)"
    by (simp add: st')
  show "modalOpen (handleAddToCart st pid) = modalOpen st"
    "modalContent (handleAddToCart st pid) = modalContent st"
    by (simp_all add: st')
  fix k
  assume "k \<noteq> pid"
  then show "find (\<lambda>item. product_id item = k) (cart (handleAddToCart st pid))
                    = find (\<lambda>item. product_id item = k) (cart st)"
    by (simp add: st' find_line_map [where f = "\<lambda>item. item\<lparr>quantity := quantity item + 1\<rparr>"])
next
  assume "stock P < (case find (\<lambda>item. product_id item = pid) (cart st) of
                        Some l \<Rightarrow> quantity l | None \<Rightarrow> 0) + 1"
  with cache have "handleAddToCart st pid = notify ''max_stock_reached'' Error st"
    by (simp add: handleAddToCart_def Let_def)
  then show "cart (handleAddToCart st pid) = cart st"
    "modalOpen (handleAddToCart st pid)"
    "modalContent (handleAddToCart st pid)
                = \<lparr>title = ''notification'', message = ''max_stock_reached'', mtype = Error\<rparr>"
    by (simp_all add: notify_def)
next
  assume "distinct (map product_id (cart st))"
  then show "distinct (map product_id (cart (handleAddToCart st pid)))"
    by (rule distinct_add)
next
  assume "cart st = []"
  then have "cart_ok (cart st)" by (simp add: cart_ok_def)
  then show "cart_ok (cart (session evs st))" by (rule cart_ok_session)
next
  assume h: "stock P \<le> 0 \<and> cart_ok (cart st)"
  then have "\<forall>l. find (\<lambda>item. product_id item = pid) (cart st) = Some l \<longrightarrow> 1 \<le> quantity l"
    by (auto simp: cart_ok_def list_all_iff dest: find_line_Some)
  with h cache have "handleAddToCart st pid = notify ''max_stock_reached'' Error st"
    by (auto simp: handleAddToCart_def Let_def split: option.splits)
  then show "cart (handleAddToCart st pid) = cart st"
    by (simp add: notify_def)
next
  assume h: "stock P \<le> 0 \<and> cart st = []"
  then have "pid \<notin> set (map product_id (cart st))" by simp
  with cache h show "pid \<notin> set (map product_id (cart (session evs st)))"
    using absent_session [of pid st P evs] by blast
qed

theorem addProduct_spec_witness:
  "handleAddToCart empty_till 1 = empty_till\<lparr>cart := [\<lparr>product_id = 1, quantity = 1,
                                      price_at_sale = 10, cost_at_sale = 6\<rparr>]\<rparr>
   \<and> find (\<lambda>item. product_id item = 1) (cart (handleAddToCart till 1))
       = Some \<lparr>product_id = 1, quantity = 3, price_at_sale = 10, cost_at_sale = 6\<rparr>
   \<and> cart (handleAddToCart full_till 1) = cart full_till
   \<and> modalOpen (handleAddToCart full_till 1)
   \<and> 1 \<notin> set (map product_id
         (cart (session [AddToCart 1, AddToCart 1, UpdateQuantity 1 4, AddToCart 1] sold_out_till)))
   \<and> cart_ok (cart (session [AddToCart 1, AddToCart 1, UpdateQuantity 1 4, AddToCart 1] sold_out_till))"
proof -
  have c0: "find (\<lambda>p. id_p p = Some 1) (products empty_till) = Some tea"
    by (simp add: empty_till_def till_def tea_def)
  have c1: "find (\<lambda>p. id_p p = Some 1) (products till) = Some tea"
    by (simp add: till_def tea_def)
  have c2: "find (\<lambda>p. id_p p = Some 1) (products full_till) = Some tea"
    by (simp add: full_till_def till_def tea_def)
  have c3: "find (\<lambda>p. id_p p = Some 1) (products sold_out_till) = Some (tea\<lparr>stock := 0\<rparr>)"
    by (simp add: sold_out_till_def tea_def)
  have h0: "find (\<lambda>item. product_id item = 1) (cart empty_till) = None \<and> 1 \<le> stock tea"
    by (simp add: empty_till_def tea_def)
  have h1: "find (\<lambda>item. product_id item = 1) (cart till) = Some tea_line
            \<and> quantity tea_line + 1 \<le> stock tea"
    by (simp add: till_def tea_line_def tea_def)
  have h2: "stock tea < (case find (\<lambda>item. product_id item = 1) (cart full_till) of
                           Some l \<Rightarrow> quantity l | None \<Rightarrow> 0) + 1"
    by (simp add: full_till_def tea_def tea_line_def)
  have h3: "stock (tea\<lparr>stock := 0\<rparr>) \<le> 0 \<and> cart sold_out_till = []"
    by (simp add: sold_out_till_def)
  note a = addProduct_spec [OF c0, THEN conjunct1, rule_format, OF h0]
  note b = addProduct_spec [OF c1, THEN conjunct2, THEN conjunct1, rule_format, OF h1,
      THEN conjunct1]
  note c = addProduct_spec [OF c2, THEN conjunct2, THEN conjunct2, THEN conjunct1,
      rule_format, OF h2]
  note d = addProduct_spec [OF c3, THEN conjunct2, THEN conjunct2, THEN conjunct2,
      THEN conjunct2, THEN conjunct1, rule_format, OF conjunct2 [OF h3]]
  note e = addProduct_spec [OF c3, THEN conjunct2, THEN conjunct2, THEN conjunct2,
      THEN conjunct2, THEN conjunct2, THEN conjunct2, rule_format, OF h3]
  have "handleAddToCart empty_till 1 = empty_till\<lparr>cart := [\<lparr>product_id = 1, quantity = 1,
                                      price_at_sale = 10, cost_at_sale = 6\<rparr>]\<rparr>"
    using a by (simp add: empty_till_def tea_def)
  moreover have "find (\<lambda>item. product_id item = 1) (cart (handleAddToCart till 1))
       = Some \<lparr>product_id = 1, quantity = 3, price_at_sale = 10, cost_at_sale = 6\<rparr>"
    using b by (simp add: tea_line_def)
  moreover note c [THEN conjunct1] c [THEN conjunct2, THEN conjunct1] e d
  ultimately show ?thesis by blast
qed

section \<open>Checkout: the stock the backend keeps\<close>

text \<open>
  Claim C4.  The stock that the update step of \<open>createSale\<close> computes is
  \<open>max 0 (currentStock - quantity)\<close>.  When the product row is fetched and the
  update goes through, exactly this value is stored for the product; whenever
  the step changes the stock of a product at all, that product is the one of the
  item and the new value is this maximum of the stock read for it.  For a call of
  \<open>createSale\<close> whose two inserts are accepted, on items with one line per
  product: the stock kept for the product of the item at position \<open>j\<close> is
  \<open>max 0 (cur - quantity)\<close> of the stock \<open>cur\<close> it had before, unless the fetch or the
  update of that item fails, in which case it stays \<open>cur\<close>.  The stock of a product
  that is not among the items is not touched, and nothing is touched when an
  insert is refused.  Hence every stock that a call changes is non-negative
  afterwards, for all quantities and all stocks, and a stock that was
  non-negative before the call is non-negative after it, whichever requests
  fail.
\<close>

theorem persisted_stock_spec:
  "newStock current qty = max 0 (current - qty)
   \<and> (tbl (product_id item) = Some current \<and> \<not> productError r i \<and> \<not> updateError r i \<longrightarrow>
        update_stock r i item tbl = tbl(product_id item \<mapsto> max 0 (current - quantity item)))
   \<and> (\<forall>k. update_stock r i item tbl k \<noteq> tbl k \<longrightarrow>
          k = product_id item \<and>
          (\<exists>cur. tbl k = Some cur \<and> update_stock r i item tbl k = Some (max 0 (cur - quantity item))))
   \<and> (\<forall>j cur. \<not> saleError r \<and> \<not> itemsError r \<and> distinct (map product_id items)
          \<and> j < length items \<and> product_stock db (product_id (items ! j)) = Some cur \<longrightarrow>
          product_stock (snd (createSale r u items t c db)) (product_id (items ! j))
            = (if productError r j \<or> updateError r j then Some cur
               else Some (max 0 (cur - quantity (items ! j)))))
   \<and> (\<forall>k. k \<notin> set (map product_id items) \<longrightarrow>
          product_stock (snd (createSale r u items t c db)) k = product_stock db k)
   \<and> (saleError r \<or> itemsError r \<longrightarrow>
          product_stock (snd (createSale r u items t c db)) = product_stock db)
   \<and> (\<forall>k. product_stock (snd (createSale r u items t c db)) k \<noteq> product_stock db k \<longrightarrow>
          (\<exists>v. product_stock (snd (createSale r u items t c db)) k = Some v \<and> 0 \<le> v))
   \<and> (\<forall>k v. product_stock db k = Some v \<and> 0 \<le> v \<longrightarrow>
          (\<exists>w. product_stock (snd (createSale r u items t c db)) k = Some w \<and> 0 \<le> w))"
proof (intro conjI allI impI)
  show "newStock current qty = max 0 (current - qty)" by (simp add: newStock_def)
next
  assume "tbl (product_id item) = Some current \<and> \<not> productError r i \<and> \<not> updateError r i"
  then show "update_stock r i item tbl = tbl(product_id item \<mapsto> max 0 (current - quantity item))"
    by (simp add: update_stock_def newStock_def)
next
  fix k assume ch: "update_stock r i item tbl k \<noteq> tbl k"
  with update_stock_cases [of r i item tbl]
  obtain cur where c: "tbl (product_id item) = Some cur"
    "update_stock r i item tbl = tbl(product_id item \<mapsto> newStock cur (quantity item))"
    by auto
  with ch show "k = product_id item" by (auto split: if_splits)
  with c show "\<exists>cur. tbl k = Some cur \<and> update_stock r i item tbl k = Some (max 0 (cur - quantity item))"
    by (simp add: newStock_def)
next
  fix j cur
  assume h: "\<not> saleError r \<and> \<not> itemsError r \<and> distinct (map product_id items)
          \<and> j < length items \<and> product_stock db (product_id (items ! j)) = Some cur"
  then have "update_stocks r 0 items (product_stock db) (product_id (items ! j))
      = (if productError r (0 + j) \<or> updateError r (0 + j) then Some cur
         else Some (max 0 (cur - quantity (items ! j))))"
    by (intro update_stocks_sold) simp_all
  with h show "product_stock (snd (createSale r u items t c db)) (product_id (items ! j))
            = (if productError r j \<or> updateError r j then Some cur
               else Some (max 0 (cur - quantity (items ! j))))"
    by (simp add: createSale_stock)
next
  fix k assume "k \<notin> set (map product_id items)"
  then show "product_stock (snd (createSale r u items t c db)) k = product_stock db k"
    by (simp add: createSale_stock update_stocks_untouched del: set_map)
next
  assume "saleError r \<or> itemsError r"
  then show "product_stock (snd (createSale r u items t c db)) = product_stock db"
    by (simp add: createSale_stock)
next
  fix k assume "product_stock (snd (createSale r u items t c db)) k \<noteq> product_stock db k"
  then show "\<exists>v. product_stock (snd (createSale r u items t c db)) k = Some v \<and> 0 \<le> v"
    using update_stocks_changed [of r 0 items "product_stock db" k]
    by (auto simp: createSale_stock split: if_splits)
next
  fix k v assume "product_stock db k = Some v \<and> 0 \<le> v"
  then show "\<exists>w. product_stock (snd (createSale r u items t c db)) k = Some w \<and> 0 \<le> w"
    using update_stocks_nonneg [of "product_stock db" k v r 0 items]
    by (auto simp: createSale_stock)
qed

theorem persisted_stock_spec_witness:
  "product_stock (snd (createSale quiet ''owner'' [tea_line\<lparr>quantity := 7\<rparr>, coffee_line] 75 45 shop)) 1
     = Some 0
   \<and> product_stock (snd (createSale quiet ''owner'' [tea_line\<lparr>quantity := 7\<rparr>, coffee_line] 75 45 shop)) 2
     = Some 3
   \<and> update_stock quiet 0 (tea_line\<lparr>quantity := 7\<rparr>) (product_stock shop) 1 = Some 0"
proof -
  let ?items = "[tea_line\<lparr>quantity := 7\<rparr>, coffee_line]"
  have h: "product_stock shop (product_id (tea_line\<lparr>quantity := 7\<rparr>)) = Some 5
           \<and> \<not> productError quiet 0 \<and> \<not> updateError quiet 0"
    by (simp add: shop_def tea_line_def quiet_def)
  have g0: "\<not> saleError quiet \<and> \<not> itemsError quiet \<and> distinct (map product_id ?items)
          \<and> 0 < length ?items \<and> product_stock shop (product_id (?items ! 0)) = Some 5"
    by (simp add: shop_def tea_line_def coffee_line_def quiet_def)
  have g1: "\<not> saleError quiet \<and> \<not> itemsError quiet \<and> distinct (map product_id ?items)
          \<and> 1 < length ?items \<and> product_stock shop (product_id (?items ! 1)) = Some 4"
    by (simp add: shop_def tea_line_def coffee_line_def quiet_def)
  note a = persisted_stock_spec [where tbl = "product_stock shop" and r = quiet and i = 0
      and item = "tea_line\<lparr>quantity := 7\<rparr>" and current = 5,
      THEN conjunct2, THEN conjunct1, rule_format, OF h]
  note b0 = persisted_stock_spec [where db = shop and r = quiet and items = ?items
      and u = "''owner''" and t = 75 and c = 45,
      THEN conjunct2, THEN conjunct2, THEN conjunct2, THEN conjunct1, rule_format, OF g0]
  note b1 = persisted_stock_spec [where db = shop and r = quiet and items = ?items
      and u = "''owner''" and t = 75 and c = 45,
      THEN conjunct2, THEN conjunct2, THEN conjunct2, THEN conjunct1, rule_format, OF g1]
  have "product_stock (snd (createSale quiet ''owner'' ?items 75 45 shop)) 1 = Some 0"
    using b0 by (simp add: tea_line_def quiet_def)
  moreover have "product_stock (snd (createSale quiet ''owner'' ?items 75 45 shop)) 2 = Some 3"
    using b1 by (simp add: coffee_line_def quiet_def)
  moreover have "update_stock quiet 0 (tea_line\<lparr>quantity := 7\<rparr>) (product_stock shop) 1 = Some 0"
    unfolding a by (simp add: tea_line_def)
  ultimately show ?thesis by simp
qed

section \<open>Cart total\<close>



text \<open>
  The claim as stated makes the total independent of the order of the lines for
  every cart.  With one piece each at the doubles nearest to 0.1, 0.2 and 0.3,
  the lines in this order add up to 0.6000000000000001 and in the reverse order
  to 0.6: the sums \<open>0.1 + 0.2\<close> and \<open>0.3 + 0.2\<close> round differently.
\<close>

theorem cart_total_order_counterexample:
  "mset [line_03, line_02, line_01] = mset [line_01, line_02, line_03]
   \<and> total [line_01, line_02, line_03] = Finite (5404319552844596 / 9007199254740992)
   \<and> total [line_03, line_02, line_01] = Finite (5404319552844595 / 9007199254740992)
   \<and> total [line_03, line_02, line_01] \<noteq> total [line_01, line_02, line_03]
   \<and> double_round (1 / 10) = Finite (price_at_sale line_01)
   \<and> double_round (2 / 10) = Finite (price_at_sale line_02)
   \<and> double_round (3 / 10) = Finite (price_at_sale line_03)"
proof -
  have a: "total [line_01, line_02, line_03] = Finite (5404319552844596 / 9007199254740992)"
    by (simp add: total_def line_01_def line_02_def line_03_def double_round_def exps
        round_even_def Let_def)
  have b: "total [line_03, line_02, line_01] = Finite (5404319552844595 / 9007199254740992)"
    by (simp add: total_def line_01_def line_02_def line_03_def double_round_def exps
        round_even_def Let_def)
  have c: "double_round (1 / 10) = Finite (price_at_sale line_01)"
    "double_round (2 / 10) = Finite (price_at_sale line_02)"
    "double_round (3 / 10) = Finite (price_at_sale line_03)"
    by (simp_all add: line_01_def line_02_def line_03_def double_round_def exps
        round_even_def Let_def)
  have "mset [line_03, line_02, line_01] = mset [line_01, line_02, line_03]"
    by (simp add: add.commute add.left_commute)
  with a b c show ?thesis by simp
qed

section \<open>Reports: the period filter\<close>

text \<open>
  Claim C6, amended.  For every period, every current time and every time zone
  the filter selects exactly the sales whose time value \<open>t\<close> satisfies
  \<open>start \<le> t \<le> end\<close> for the range that \<open>getDateRange\<close> computes: the interval is
  closed at both ends.  For \<open>today\<close>, \<open>this_week\<close> and \<open>this_month\<close> the end is the
  current time itself.  The starts and the other ends are local times, turned
  into instants by the zone.  When the local year of the current time is not one
  of 0 to 99 (which the \<open>Date\<close> constructor reads as 1900 to 1999), \<open>today\<close> starts
  at the local midnight of the current day.  When that midnight reads back,
  \<open>yesterday\<close> starts one local day before it; \<open>this_week\<close> starts at the local
  midnight of the latest Sunday, at most six days back; \<open>last_week\<close> starts seven
  local days before that; \<open>this_month\<close> starts at the local midnight of the first
  of the current month; \<open>last_month\<close> runs from the local midnight of the first of
  the previous month to the last millisecond before the first of the current
  month, which lies in the previous month.  When the midnight of yesterday reads
  back, \<open>yesterday\<close> ends with the last millisecond before the midnight of today;
  when the start of last week and the midnight six days after it read back,
  \<open>last_week\<close> ends with the last millisecond before the start of this week.  A
  period that contains a daylight-saving switch is as long as the local clock
  makes it.
\<close>

theorem period_filter_closed_interval:
  "filteredSales z now period sale_list
     = filter (\<lambda>s. start_date (getDateRange z now period) \<le> created_at_s s
                  \<and> created_at_s s \<le> end_date (getDateRange z now period)) sale_list
   \<and> end_date (getDateRange z now ''today'') = now
   \<and> end_date (getDateRange z now ''this_week'') = now
   \<and> end_date (getDateRange z now ''this_month'') = now
   \<and> local_midnight z now \<le> LocalTime z now
   \<and> LocalTime z now < local_midnight z now + msPerDay
   \<and> 0 \<le> getDay z now \<and> getDay z now \<le> 6
   \<and> WeekDay (local_midnight z now - getDay z now * msPerDay) = 0
   \<and> TimeWithinDay (local_midnight z now - getDay z now * msPerDay) = 0
   \<and> YearFromTime (local_midnight z now - (getDate z now - 1) * msPerDay) = getFullYear z now
   \<and> MonthFromTime (local_midnight z now - (getDate z now - 1) * msPerDay) = getMonth z now
   \<and> DateFromTime (local_midnight z now - (getDate z now - 1) * msPerDay) = 1
   \<and> YearFromTime (MakeDay (getFullYear z now) (getMonth z now - 1) 1 * msPerDay)
       = (if getMonth z now = 0 then getFullYear z now - 1 else getFullYear z now)
   \<and> MonthFromTime (MakeDay (getFullYear z now) (getMonth z now - 1) 1 * msPerDay)
       = (if getMonth z now = 0 then 11 else getMonth z now - 1)
   \<and> DateFromTime (MakeDay (getFullYear z now) (getMonth z now - 1) 1 * msPerDay) = 1
   \<and> TimeWithinDay (MakeDay (getFullYear z now) (getMonth z now - 1) 1 * msPerDay) = 0
   \<and> YearFromTime (local_midnight z now - (getDate z now - 1) * msPerDay - 1)
       = (if getMonth z now = 0 then getFullYear z now - 1 else getFullYear z now)
   \<and> MonthFromTime (local_midnight z now - (getDate z now - 1) * msPerDay - 1)
       = (if getMonth z now = 0 then 11 else getMonth z now - 1)
   \<and> (\<not> (0 \<le> getFullYear z now \<and> getFullYear z now \<le> 99) \<longrightarrow>
         start_date (getDateRange z now ''today'') = UTC z (local_midnight z now)
       \<and> (reads_back z (local_midnight z now) \<longrightarrow>
             start_date (getDateRange z now ''yesterday'')
               = UTC z (local_midnight z now - msPerDay)
           \<and> start_date (getDateRange z now ''this_week'')
               = UTC z (local_midnight z now - getDay z now * msPerDay)
           \<and> start_date (getDateRange z now ''last_week'')
               = UTC z (local_midnight z now - (getDay z now + 7) * msPerDay)
           \<and> start_date (getDateRange z now ''this_month'')
               = UTC z (local_midnight z now - (getDate z now - 1) * msPerDay)
           \<and> start_date (getDateRange z now ''last_month'')
               = UTC z (MakeDay (getFullYear z now) (getMonth z now - 1) 1 * msPerDay)
           \<and> end_date (getDateRange z now ''last_month'')
               = UTC z (local_midnight z now - (getDate z now - 1) * msPerDay - 1)
           \<and> (reads_back z (local_midnight z now - msPerDay) \<longrightarrow>
                 end_date (getDateRange z now ''yesterday'') = UTC z (local_midnight z now - 1))
           \<and> (reads_back z (local_midnight z now - (getDay z now + 7) * msPerDay)
                \<and> reads_back z (local_midnight z now - (getDay z now + 1) * msPerDay) \<longrightarrow>
                 end_date (getDateRange z now ''last_week'')
                   = UTC z (local_midnight z now - getDay z now * msPerDay - 1))))"
proof -
  have a: "filteredSales z now period sale_list
     = filter (\<lambda>s. start_date (getDateRange z now period) \<le> created_at_s s
                  \<and> created_at_s s \<le> end_date (getDateRange z now period)) sale_list"
    by (simp add: filteredSales_def Let_def)
  note b = range_ends [of z now]
  note c = local_midnight_bounds [of z now]
  note d = week_start_sunday [of z now]
  note e = month_begin_fields [of z now]
  have f: "\<not> (0 \<le> getFullYear z now \<and> getFullYear z now \<le> 99) \<longrightarrow>
         start_date (getDateRange z now ''today'') = UTC z (local_midnight z now)
       \<and> (reads_back z (local_midnight z now) \<longrightarrow>
             start_date (getDateRange z now ''yesterday'')
               = UTC z (local_midnight z now - msPerDay)
           \<and> start_date (getDateRange z now ''this_week'')
               = UTC z (local_midnight z now - getDay z now * msPerDay)
           \<and> start_date (getDateRange z now ''last_week'')
               = UTC z (local_midnight z now - (getDay z now + 7) * msPerDay)
           \<and> start_date (getDateRange z now ''this_month'')
               = UTC z (local_midnight z now - (getDate z now - 1) * msPerDay)
           \<and> start_date (getDateRange z now ''last_month'')
               = UTC z (MakeDay (getFullYear z now) (getMonth z now - 1) 1 * msPerDay)
           \<and> end_date (getDateRange z now ''last_month'')
               = UTC z (local_midnight z now - (getDate z now - 1) * msPerDay - 1)
           \<and> (reads_back z (local_midnight z now - msPerDay) \<longrightarrow>
                 end_date (getDateRange z now ''yesterday'') = UTC z (local_midnight z now - 1))
           \<and> (reads_back z (local_midnight z now - (getDay z now + 7) * msPerDay)
                \<and> reads_back z (local_midnight z now - (getDay z now + 1) * msPerDay) \<longrightarrow>
                 end_date (getDateRange z now ''last_week'')
                   = UTC z (local_midnight z now - getDay z now * msPerDay - 1)))"
  proof (intro impI conjI)
    assume yr: "\<not> (0 \<le> getFullYear z now \<and> getFullYear z now \<le> 99)"
    show "start_date (getDateRange z now ''today'') = UTC z (local_midnight z now)"
      by (simp add: range_today today_exact [OF yr])
    assume rb: "reads_back z (local_midnight z now)"
    note s = range_starts [OF yr rb]
    show "start_date (getDateRange z now ''yesterday'') = UTC z (local_midnight z now - msPerDay)"
      by (rule s(1))
    show "start_date (getDateRange z now ''this_week'')
               = UTC z (local_midnight z now - getDay z now * msPerDay)"
      by (rule s(2))
    show "start_date (getDateRange z now ''last_week'')
               = UTC z (local_midnight z now - (getDay z now + 7) * msPerDay)"
      by (rule s(3))
    show "start_date (getDateRange z now ''this_month'')
               = UTC z (local_midnight z now - (getDate z now - 1) * msPerDay)"
      by (rule s(4))
    show "start_date (getDateRange z now ''last_month'')
               = UTC z (MakeDay (getFullYear z now) (getMonth z now - 1) 1 * msPerDay)"
      by (rule s(5))
    show "end_date (getDateRange z now ''last_month'')
               = UTC z (local_midnight z now - (getDate z now - 1) * msPerDay - 1)"
      by (rule s(6))
    show "end_date (getDateRange z now ''yesterday'') = UTC z (local_midnight z now - 1)"
      if "reads_back z (local_midnight z now - msPerDay)"
      by (rule range_yesterday_end [OF yr rb that])
    show "end_date (getDateRange z now ''last_week'')
                   = UTC z (local_midnight z now - getDay z now * msPerDay - 1)"
      if "reads_back z (local_midnight z now - (getDay z now + 7) * msPerDay)
                \<and> reads_back z (local_midnight z now - (getDay z now + 1) * msPerDay)"
      using that range_last_week_end [OF yr rb] by blast
  qed
  show ?thesis
    using a b c d e(2-4) e(6-11) f by (intro conjI) blast+
qed

text \<open>
  In central Europe at noon of 1 April 2024, the day after the clocks went
  forward: yesterday began 23 hours before today did.
\<close>

theorem period_filter_closed_interval_witness:
  "start_date (getDateRange central_europe_2024 1711965600000 ''today'') = 1711922400000
   \<and> start_date (getDateRange central_europe_2024 1711965600000 ''yesterday'') = 1711839600000
   \<and> end_date (getDateRange central_europe_2024 1711965600000 ''yesterday'') = 1711922399999
   \<and> start_date (getDateRange central_europe_2024 1711965600000 ''this_week'') = 1711839600000
   \<and> start_date (getDateRange central_europe_2024 1711965600000 ''last_week'') = 1711234800000
   \<and> end_date (getDateRange central_europe_2024 1711965600000 ''last_week'') = 1711839599999
   \<and> start_date (getDateRange central_europe_2024 1711965600000 ''this_month'') = 1711922400000
   \<and> start_date (getDateRange central_europe_2024 1711965600000 ''last_month'') = 1709247600000
   \<and> end_date (getDateRange central_europe_2024 1711965600000 ''last_month'') = 1711922399999"
proof -
  let ?z = central_europe_2024
  let ?now = "1711965600000 :: int"
  have y: "getFullYear ?z ?now = 2024" by code_simp
  have m: "getMonth ?z ?now = 3" by code_simp
  have d: "getDate ?z ?now = 1" by code_simp
  have w: "getDay ?z ?now = 1" by code_simp
  have l: "local_midnight ?z ?now = 1711929600000" by code_simp
  have p: "MakeDay 2024 2 1 = 19783" by code_simp
  have h: "\<not> (0 \<le> getFullYear ?z ?now \<and> getFullYear ?z ?now \<le> 99)"
    by (simp add: y)
  have rb: "reads_back ?z (local_midnight ?z ?now)"
    unfolding l by (simp add: reads_back_def UTC_def LocalTime_def central_europe_2024_def)
  have rb1: "reads_back ?z (local_midnight ?z ?now - msPerDay)"
    unfolding l
    by (simp add: reads_back_def UTC_def LocalTime_def central_europe_2024_def msPerDay_def)
  have rb2: "reads_back ?z (local_midnight ?z ?now - (getDay ?z ?now + 7) * msPerDay)
      \<and> reads_back ?z (local_midnight ?z ?now - (getDay ?z ?now + 1) * msPerDay)"
    unfolding l w
    by (simp add: reads_back_def UTC_def LocalTime_def central_europe_2024_def msPerDay_def)
  note t = period_filter_closed_interval [of ?z ?now "''today''" "[] :: sale list",
      THEN conjunct2, THEN conjunct2, THEN conjunct2, THEN conjunct2, THEN conjunct2,
      THEN conjunct2, THEN conjunct2, THEN conjunct2, THEN conjunct2, THEN conjunct2,
      THEN conjunct2, THEN conjunct2, THEN conjunct2, THEN conjunct2, THEN conjunct2,
      THEN conjunct2, THEN conjunct2, THEN conjunct2, THEN conjunct2, rule_format, OF h]
  note s = t [THEN conjunct2, rule_format, OF rb]
  note s1 = s [THEN conjunct1]
  note s2 = s [THEN conjunct2, THEN conjunct1]
  note s3 = s [THEN conjunct2, THEN conjunct2, THEN conjunct1]
  note s4 = s [THEN conjunct2, THEN conjunct2, THEN conjunct2, THEN conjunct1]
  note s5 = s [THEN conjunct2, THEN conjunct2, THEN conjunct2, THEN conjunct2, THEN conjunct1]
  note s6 = s [THEN conjunct2, THEN conjunct2, THEN conjunct2, THEN conjunct2, THEN conjunct2,
      THEN conjunct1]
  note s7 = s [THEN conjunct2, THEN conjunct2, THEN conjunct2, THEN conjunct2, THEN conjunct2,
      THEN conjunct2, THEN conjunct1, rule_format, OF rb1]
  note s8 = s [THEN conjunct2, THEN conjunct2, THEN conjunct2, THEN conjunct2, THEN conjunct2,
      THEN conjunct2, THEN conjunct2, rule_format, OF rb2]
  have u: "\<And>t. UTC ?z t = t - ?z t False" by (simp add: UTC_def)
  have "start_date (getDateRange ?z ?now ''today'') = 1711922400000"
    unfolding t [THEN conjunct1] l by (simp add: u central_europe_2024_def)
  moreover have "start_date (getDateRange ?z ?now ''yesterday'') = 1711839600000"
    unfolding s1 l by (simp add: u central_europe_2024_def msPerDay_def)
  moreover have "end_date (getDateRange ?z ?now ''yesterday'') = 1711922399999"
    unfolding s7 l by (simp add: u central_europe_2024_def msPerDay_def)
  moreover have "start_date (getDateRange ?z ?now ''this_week'') = 1711839600000"
    unfolding s2 l w by (simp add: u central_europe_2024_def msPerDay_def)
  moreover have "start_date (getDateRange ?z ?now ''last_week'') = 1711234800000"
    unfolding s3 l w by (simp add: u central_europe_2024_def msPerDay_def)
  moreover have "end_date (getDateRange ?z ?now ''last_week'') = 1711839599999"
    unfolding s8 l w by (simp add: u central_europe_2024_def msPerDay_def)
  moreover have "start_date (getDateRange ?z ?now ''this_month'') = 1711922400000"
    unfolding s4 l d by (simp add: u central_europe_2024_def msPerDay_def)
  moreover have "start_date (getDateRange ?z ?now ''last_month'') = 1709247600000"
    unfolding s5 y m by (simp add: p u central_europe_2024_def msPerDay_def)
  moreover have "end_date (getDateRange ?z ?now ''last_month'') = 1711922399999"
    unfolding s6 l d by (simp add: u central_europe_2024_def msPerDay_def)
  ultimately show ?thesis by (intro conjI)
qed


text \<open>
  The claim as stated speaks of a half-open interval.  With the report computed
  at 2023-11-14 22:13:20 UTC, a sale made at the midnight that began the day has
  \<open>created_at = start\<close> and a sale made at the instant of the report has
  \<open>created_at = end\<close>.  Both are selected: the interval of the filter contains
  both of its end points, so it is neither \<open>[start, end)\<close> nor \<open>(start, end]\<close>.
\<close>

theorem period_filter_half_open_counterexample:
  "filteredSales utc 1700000000000 ''today'' [opening_sale, closing_sale]
     = [opening_sale, closing_sale]
   \<and> created_at_s opening_sale = start_date (getDateRange utc 1700000000000 ''today'')
   \<and> created_at_s closing_sale = end_date (getDateRange utc 1700000000000 ''today'')
   \<and> \<not> created_at_s closing_sale < end_date (getDateRange utc 1700000000000 ''today'')
   \<and> \<not> start_date (getDateRange utc 1700000000000 ''today'') < created_at_s opening_sale"
proof -
  have s: "start_date (getDateRange utc 1700000000000 ''today'') = 1699920000000" by code_simp
  have e: "end_date (getDateRange utc 1700000000000 ''today'') = 1700000000000"
    by (simp add: getDateRange_def Let_def)
  show ?thesis
    by (simp add: filteredSales_def Let_def s e closing_sale_def opening_sale_def)
qed
section \<open>Reports: the profit margin\<close>

text \<open>
  Claim C7.  Over sales whose amounts are not negative (amounts are sums of
  quantity times a price, and prices are not negative in the data model), the
  revenue and the cost of \<open>financialMetrics\<close> are the sums of \<open>total_amount\<close> and
  \<open>total_cost\<close> and the profit is their difference.  When the revenue is 0 the
  margin is the number 0, although the quotient of profit and revenue is then
  \<open>NaN\<close> or infinite: the quotient is not taken.  Otherwise the margin is revenue
  minus cost, divided by the revenue, times 100.  In both cases the margin is a
  finite number.
\<close>

theorem profit_margin_spec:
  assumes "\<forall>s\<in>set filtered. 0 \<le> total_amount s"
  shows "totalRevenue (financialMetrics filtered) = sum_list (map total_amount filtered)
       \<and> totalCost (financialMetrics filtered) = sum_list (map total_cost filtered)
       \<and> totalProfit (financialMetrics filtered)
           = totalRevenue (financialMetrics filtered) - totalCost (financialMetrics filtered)
       \<and> (totalRevenue (financialMetrics filtered) = 0 \<longrightarrow>
            profitMargin (financialMetrics filtered) = Finite 0
          \<and> js_divide (totalProfit (financialMetrics filtered))
                (totalRevenue (financialMetrics filtered))
              \<in> {NaN, PosInfinity, NegInfinity})
       \<and> (totalRevenue (financialMetrics filtered) \<noteq> 0 \<longrightarrow>
            profitMargin (financialMetrics filtered)
              = Finite ((totalRevenue (financialMetrics filtered)
                          - totalCost (financialMetrics filtered))
                        / totalRevenue (financialMetrics filtered) * 100))
       \<and> profitMargin (financialMetrics filtered) \<notin> {NaN, PosInfinity, NegInfinity}"
proof -
  have "0 \<le> sum_list (map total_amount filtered)"
    using assms by (intro sum_list_nonneg) auto
  then show ?thesis
    by (auto simp: financialMetrics_def Let_def fold_plus_acc js_divide_def js_times_def)
qed

theorem profit_margin_spec_witness:
  "profitMargin (financialMetrics [free_sale]) = Finite 0
   \<and> js_divide (totalProfit (financialMetrics [free_sale])) (totalRevenue (financialMetrics [free_sale]))
       = NaN
   \<and> profitMargin (financialMetrics [closing_sale, free_sale]) = Finite 40"
proof -
  have h0: "\<forall>s\<in>set [free_sale]. 0 \<le> total_amount s" by (simp add: free_sale_def)
  have h1: "\<forall>s\<in>set [closing_sale, free_sale]. 0 \<le> total_amount s"
    by (simp add: free_sale_def closing_sale_def)
  note a = profit_margin_spec [OF h0]
  note b = profit_margin_spec [OF h1]
  have r0: "totalRevenue (financialMetrics [free_sale]) = 0"
    unfolding a [THEN conjunct1] by (simp add: free_sale_def)
  have c0: "totalCost (financialMetrics [free_sale]) = 0"
    unfolding a [THEN conjunct2, THEN conjunct1] by (simp add: free_sale_def)
  from r0 a have "profitMargin (financialMetrics [free_sale]) = Finite 0" by blast
  moreover have "js_divide (totalProfit (financialMetrics [free_sale]))
      (totalRevenue (financialMetrics [free_sale])) = NaN"
    unfolding a [THEN conjunct2, THEN conjunct2, THEN conjunct1] r0 c0
    by (simp add: js_divide_def)
  moreover have r: "totalRevenue (financialMetrics [closing_sale, free_sale]) = 25"
    unfolding b [THEN conjunct1] by (simp add: free_sale_def closing_sale_def)
  have c: "totalCost (financialMetrics [closing_sale, free_sale]) = 15"
    unfolding b [THEN conjunct2, THEN conjunct1] by (simp add: free_sale_def closing_sale_def)
  from r have "totalRevenue (financialMetrics [closing_sale, free_sale]) \<noteq> 0" by simp
  with b have "profitMargin (financialMetrics [closing_sale, free_sale])
              = Finite ((totalRevenue (financialMetrics [closing_sale, free_sale])
                 - totalCost (financialMetrics [closing_sale, free_sale]))
                  / totalRevenue (financialMetrics [closing_sale, free_sale]) * 100)" by blast
  then have "profitMargin (financialMetrics [closing_sale, free_sale]) = Finite 40"
    unfolding r c by simp
  ultimately show ?thesis by simp
qed

section \<open>Inventory: the filter for new products\<close>

text \<open>
  Claim C8.  On a catalog that is not empty, the filter \<open>new\<close> shows the first
  \<open>max \<lceil>n / 5\<rceil> 5\<close> products of the catalog sorted by creation time, newest first
  (products created at the same time keep their order), where \<open>n\<close> is the size of
  the catalog; a catalog with fewer products is shown whole.  The products shown
  are in descending order of creation time, they are products of the catalog,
  and no product left out is newer than a product shown.  On a catalog of 20
  products exactly 5 are shown.
\<close>

theorem new_products_spec:
  assumes "allProducts \<noteq> []"
  shows "filter_effect FilterNew allProducts shown
           = take (max (nat \<lceil>real (length allProducts) / 5\<rceil>) 5)
               (sort_key (\<lambda>p. - created_at p) allProducts)
       \<and> length (filter_effect FilterNew allProducts shown)
           = min (length allProducts) (max (nat \<lceil>real (length allProducts) / 5\<rceil>) 5)
       \<and> sorted_wrt (\<lambda>a b. created_at b \<le> created_at a) (filter_effect FilterNew allProducts shown)
       \<and> mset (filter_effect FilterNew allProducts shown) \<subseteq># mset allProducts
       \<and> (\<forall>q\<in>set (filter_effect FilterNew allProducts shown).
            \<forall>p\<in>#mset allProducts - mset (filter_effect FilterNew allProducts shown).
              created_at p \<le> created_at q)
       \<and> (length allProducts = 20 \<longrightarrow> length (filter_effect FilterNew allProducts shown) = 5)"
proof -
  let ?s = "sort_key (\<lambda>p. - created_at p) allProducts"
  let ?k = "max ((length allProducts + 4) div 5) 5"
  have c: "nat \<lceil>real (length allProducts) / 5\<rceil> = (length allProducts + 4) div 5"
    by (rule ceil_fifth)
  have r: "filter_effect FilterNew allProducts shown = take ?k ?s"
    by (rule filter_effect_new [OF assms])
  have s: "sorted_wrt (\<lambda>a b. created_at b \<le> created_at a) (take ?k ?s @ drop ?k ?s)"
    using sorted_desc [of allProducts] by simp
  have m: "mset allProducts = mset (take ?k ?s) + mset (drop ?k ?s)"
    by (metis append_take_drop_id mset_append mset_sort)
  have "length (take ?k ?s) = min (length allProducts) ?k" by simp
  moreover have "sorted_wrt (\<lambda>a b. created_at b \<le> created_at a) (take ?k ?s)"
    using s unfolding sorted_wrt_append by blast
  moreover have "mset (take ?k ?s) \<subseteq># mset allProducts"
    unfolding m by simp
  moreover have "\<forall>q\<in>set (take ?k ?s). \<forall>p\<in>#mset allProducts - mset (take ?k ?s).
      created_at p \<le> created_at q"
    using s unfolding sorted_wrt_append m by simp
  moreover have "length allProducts = 20 \<longrightarrow> length (take ?k ?s) = 5" by simp
  ultimately show ?thesis unfolding r c by blast
qed


theorem new_products_spec_witness:
  "length (filter_effect FilterNew catalog20 []) = 5
   \<and> map created_at (filter_effect FilterNew catalog20 []) = [20, 19, 18, 17, 16]"
proof -
  have n: "catalog20 \<noteq> []" by (simp add: catalog20_def upt_conv_Cons)
  have l: "length catalog20 = 20" by (simp add: catalog20_def)
  note t = new_products_spec [OF n, of "[]"]
  from t l have "length (filter_effect FilterNew catalog20 []) = 5" by blast
  moreover have "map created_at (filter_effect FilterNew catalog20 []) = [20, 19, 18, 17, 16]"
    unfolding t [THEN conjunct1] l by code_simp
  ultimately show ?thesis by simp
qed

section \<open>Product form: an image upload that fails\<close>

text \<open>
  Claim C9.  When the upload of the chosen image fails (no user id, a file above
  the size limit, an error or an exception from object storage, or no public URL
  for the stored file), \<open>uploadProductImage\<close> returns a URL of the placeholder
  service, and \<open>handleSubmit\<close> goes on to save the product with that URL: none of
  these URLs contains the word \<open>placeholder\<close> that the form looks for, so the
  form does not stop with its image error.
\<close>

theorem image_upload_fallback:
  assumes "upload_fails userId file reply"
  shows "handleSubmit True (Some userId) form_image_url (Some file) reply
           = SaveWith (uploadProductImage userId file reply)
       \<and> take 48 (uploadProductImage userId file reply)
           = ''https://placehold.co/300x300/e2e8f0/64748b?text=''"
proof -
  consider (no_user) "userId = []"
    | (too_big) "userId \<noteq> []" "file_size file > 5242880"
    | (storage) "userId \<noteq> []" "\<not> file_size file > 5242880"
        "reply = UploadError \<or> reply = UploadThrows \<or> reply = Uploaded None \<or> reply = Uploaded (Some [])"
    using assms unfolding upload_fails_def by blast
  then show ?thesis
  proof cases
    case no_user
    show ?thesis
      using placeholder_not_flagged
      by (simp add: handleSubmit_def Let_def no_user no_user_url del: str_includes.simps)
  next
    case too_big
    show ?thesis
      using placeholder_not_flagged
      by (simp add: handleSubmit_def Let_def too_big_url [OF too_big] del: str_includes.simps)
  next
    case storage
    show ?thesis
      using placeholder_not_flagged
      by (simp add: handleSubmit_def Let_def storage_failure_url [OF storage] del: str_includes.simps)
  qed
qed

theorem image_upload_fallback_witness:
  "handleSubmit True (Some ''owner'') '''' (Some photo) UploadError
     = SaveWith ''https://placehold.co/300x300/e2e8f0/64748b?text=Product+Image''"
proof -
  have f: "upload_fails ''owner'' photo UploadError" by (simp add: upload_fails_def)
  have u: "uploadProductImage ''owner'' photo UploadError
      = ''https://placehold.co/300x300/e2e8f0/64748b?text=Product+Image''"
    by (rule storage_failure_url) (simp_all add: photo_def)
  from image_upload_fallback [OF f, of "''''", THEN conjunct1] show ?thesis
    unfolding u .
qed

section \<open>Cart model: a line whose product has left the catalog cache\<close>

text \<open>
  Claim C10.  When the catalog cache has no product with the id of a cart line
  (it was deleted after the line was added, say), \<open>handleUpdateQuantity\<close> with any
  positive quantity \<open>q\<close> makes no stock check: the line gets quantity \<open>q\<close>, whatever
  \<open>q\<close> is, every other line is kept, and no notice is opened.
\<close>

theorem setQuantity_unknown_product:
  assumes cache: "find (\<lambda>p. id_p p = Some pid) (products st) = None"
      and line: "find (\<lambda>item. product_id item = pid) (cart st) = Some l"
      and pos: "0 < q"
  shows "find (\<lambda>item. product_id item = pid) (cart (handleUpdateQuantity st pid q))
           = Some (l\<lparr>quantity := q\<rparr>)
       \<and> (\<forall>k. k \<noteq> pid \<longrightarrow>
             find (\<lambda>item. product_id item = k) (cart (handleUpdateQuantity st pid q))
               = find (\<lambda>item. product_id item = k) (cart st))
       \<and> map product_id (cart (handleUpdateQuantity st pid q)) = map product_id (cart st)
       \<and> modalOpen (handleUpdateQuantity st pid q) = modalOpen st
       \<and> modalContent (handleUpdateQuantity st pid q) = modalContent st"
proof -
  let ?upd = "\<lambda>item. if product_id item = pid then item\<lparr>quantity := q\<rparr> else item"
  from pos cache have st': "handleUpdateQuantity st pid q = st\<lparr>cart := map ?upd (cart st)\<rparr>"
    by (simp add: handleUpdateQuantity_def)
  have "find (\<lambda>item. product_id item = pid) (cart (handleUpdateQuantity st pid q))
              = Some (l\<lparr>quantity := q\<rparr>)"
    using line by (simp add: st' find_line_map [where f = "\<lambda>item. item\<lparr>quantity := q\<rparr>"])
  moreover have "\<forall>k. k \<noteq> pid \<longrightarrow>
                find (\<lambda>item. product_id item = k) (cart (handleUpdateQuantity st pid q))
                  = find (\<lambda>item. product_id item = k) (cart st)"
    by (simp add: st' find_line_map [where f = "\<lambda>item. item\<lparr>quantity := q\<rparr>"])
  moreover have "map product_id (cart (handleUpdateQuantity st pid q)) = map product_id (cart st)"
    by (simp add: st' ids_line_map [where f = "\<lambda>item. item\<lparr>quantity := q\<rparr>"])
  moreover have "modalOpen (handleUpdateQuantity st pid q) = modalOpen st"
    "modalContent (handleUpdateQuantity st pid q) = modalContent st"
    by (simp_all add: st')
  ultimately show ?thesis by blast
qed

theorem setQuantity_unknown_product_witness:
  "find (\<lambda>item. product_id item = 1) (cart (handleUpdateQuantity ghost_till 1 1000))
     = Some \<lparr>product_id = 1, quantity = 1000, price_at_sale = 10, cost_at_sale = 6\<rparr>
   \<and> modalOpen (handleUpdateQuantity ghost_till 1 1000) = False"
proof -
  have c: "find (\<lambda>p. id_p p = Some 1) (products ghost_till) = None"
    by (simp add: ghost_till_def)
  have l: "find (\<lambda>item. product_id item = 1) (cart ghost_till) = Some tea_line"
    by (simp add: ghost_till_def till_def tea_line_def)
  have p: "(0::int) < 1000" by simp
  have "find (\<lambda>item. product_id item = 1) (cart (handleUpdateQuantity ghost_till 1 1000))
     = Some \<lparr>product_id = 1, quantity = 1000, price_at_sale = 10, cost_at_sale = 6\<rparr>"
    using setQuantity_unknown_product [OF c l p, THEN conjunct1]
    by (simp add: tea_line_def)
  moreover have "modalOpen (handleUpdateQuantity ghost_till 1 1000) = False"
    using setQuantity_unknown_product [OF c l p, THEN conjunct2, THEN conjunct2, THEN conjunct2, THEN conjunct1]
    by (simp add: ghost_till_def till_def)
  ultimately show ?thesis by simp
qed

end
